theory Spec2Isabelle
  imports Complex_Main "HOL-Library.AList"
begin

section \<open>easyupoo: the persistent product cache and the price pipeline\<close>

text \<open>
  A shallow embedding of the data layer of \<^verbatim>\<open>src/content.js\<close> and \<^verbatim>\<open>src/popup.js\<close>.
  Conventions:
  \<^item> \<^verbatim>\<open>Date.now()\<close> is an integer number of milliseconds; every operation takes the clock
    reading \<open>now\<close> as a parameter and uses it for each \<^verbatim>\<open>Date.now()\<close> it performs.
  \<^item> A JavaScript \<^verbatim>\<open>Map\<close> is an association list in insertion order: \<^verbatim>\<open>Map.set\<close> is
    \<^const>\<open>AList.update\<close> (an existing key keeps its position), \<^verbatim>\<open>Map.delete\<close> is
    \<^const>\<open>AList.delete\<close>, \<^verbatim>\<open>Map.get\<close> is \<^const>\<open>map_of\<close>.
  \<^item> A thrown exception or a rejected promise is the \<open>Inl\<close> branch of a sum; where a
    promise may also stay pending, it is a value of the type \<open>promise\<close>.
\<close>

subsection \<open>Configuration\<close>

record cache_config =
  version :: string
  maxAge :: int
  maxItems :: nat

definition CACHE_CONFIG :: cache_config where
  "CACHE_CONFIG = \<lparr> version = ''1.0.0'', maxAge = 7 * 24 * 60 * 60 * 1000, maxItems = 1000 \<rparr>"

subsection \<open>Errors\<close>

text \<open>
  \<open>Error m\<close> is \<^verbatim>\<open>new Error(m)\<close>; \<open>TypeError\<close> and \<open>SyntaxError\<close> are raised by the
  engine (destructuring or \<^verbatim>\<open>Object.entries\<close> of \<^verbatim>\<open>undefined\<close>, \<^verbatim>\<open>JSON.parse\<close>);
  \<open>StorageError\<close> is a rejected \<^verbatim>\<open>chrome.storage.local\<close> call.
\<close>

datatype js_error = Error string | TypeError | SyntaxError | StorageError

subsection \<open>Cache entries, metadata and the state\<close>

text \<open>
  An entry is the object \<^verbatim>\<open>{data, timestamp, lastAccessed}\<close> written by \<^verbatim>\<open>set\<close>, with
  both timestamps numbers. The payload is optional: \<open>None\<close> stands for a \<^verbatim>\<open>data\<close> field
  that is missing or falsy.
\<close>

record 'v entry =
  data :: "'v option"
  timestamp :: int
  lastAccessed :: int

record metadata =
  md_version :: string
  lastCleanup :: int

text \<open>
  The state holds the \<^verbatim>\<open>PersistentCache\<close> object (\<open>cache\<close> is \<^verbatim>\<open>this.data\<close>), the two keys
  of \<^verbatim>\<open>chrome.storage.local\<close> the cache uses, and the schedule of storage failures:
  the \<open>n\<close>-th storage call rejects iff the \<open>n\<close>-th element of \<open>faults\<close> is \<open>True\<close>
  (no failure once the schedule is used up). A rejected call leaves the store as it is.
  The stored object lists its entries in the order of the map: the keys are the URLs of
  the listings, none of them an array index.
\<close>

record 'v state =
  cache :: "(string \<times> 'v entry) list"
  initialized :: bool
  productCache :: "(string \<times> 'v entry) list option"
  cacheMetadata :: "metadata option"
  faults :: "bool list"

type_synonym ('v, 'a) io = "'v state \<Rightarrow> (js_error + 'a) \<times> 'v state"

definition return_io :: "'a \<Rightarrow> ('v, 'a) io" where
  "return_io a s = (Inr a, s)"

definition bind_io :: "('v, 'a) io \<Rightarrow> ('a \<Rightarrow> ('v, 'b) io) \<Rightarrow> ('v, 'b) io" where
  "bind_io m f s = (case m s of (Inl e, s') \<Rightarrow> (Inl e, s') | (Inr a, s') \<Rightarrow> f a s')"

text \<open>One call of the storage API: the call consumes one element of the schedule.\<close>

definition storage_call :: "('v state \<Rightarrow> 'a \<times> 'v state) \<Rightarrow> ('v, 'a) io" where
  "storage_call f s =
     (case faults s of
        [] \<Rightarrow> (case f s of (a, s') \<Rightarrow> (Inr a, s'))
      | b # bs \<Rightarrow>
          (if b then (Inl StorageError, s\<lparr>faults := bs\<rparr>)
           else (case f (s\<lparr>faults := bs\<rparr>) of (a, s') \<Rightarrow> (Inr a, s'))))"

text \<open>No storage call will fail.\<close>

definition no_faults :: "'v state \<Rightarrow> bool" where
  "no_faults s \<longleftrightarrow> True \<notin> set (faults s)"

definition storage_get_cacheMetadata :: "('v, metadata option) io" where
  "storage_get_cacheMetadata = storage_call (\<lambda>s. (cacheMetadata s, s))"

definition storage_get_productCache :: "('v, (string \<times> 'v entry) list option) io" where
  "storage_get_productCache = storage_call (\<lambda>s. (productCache s, s))"

definition storage_set_productCache :: "(string \<times> 'v entry) list \<Rightarrow> ('v, unit) io" where
  "storage_set_productCache obj = storage_call (\<lambda>s. ((), s\<lparr>productCache := Some obj\<rparr>))"

definition storage_set_cacheMetadata :: "metadata \<Rightarrow> ('v, unit) io" where
  "storage_set_cacheMetadata m = storage_call (\<lambda>s. ((), s\<lparr>cacheMetadata := Some m\<rparr>))"

definition storage_remove_all :: "('v, unit) io" where
  "storage_remove_all = storage_call (\<lambda>s. ((), s\<lparr>productCache := None, cacheMetadata := None\<rparr>))"

subsection \<open>PersistentCache\<close>

text \<open>
  \<^verbatim>\<open>entry && entry.timestamp && Date.now() - entry.timestamp < CACHE_CONFIG.maxAge && entry.data\<close>:
  a number is truthy iff it is not zero.
\<close>

definition isValidCacheEntry :: "int \<Rightarrow> 'v entry \<Rightarrow> bool" where
  "isValidCacheEntry now e \<longleftrightarrow>
     timestamp e \<noteq> 0 \<and> now - timestamp e < maxAge CACHE_CONFIG \<and> data e \<noteq> None"

text \<open>
  \<^verbatim>\<open>get(key)\<close>, after the constructor's initialization has completed: the payload of a valid
  entry, whose \<^verbatim>\<open>lastAccessed\<close> is refreshed in memory; \<open>None\<close> is \<^verbatim>\<open>null\<close>.
\<close>

definition get :: "int \<Rightarrow> string \<Rightarrow> 'v state \<Rightarrow> 'v option \<times> 'v state" where
  "get now key s =
     (case map_of (cache s) key of
        None \<Rightarrow> (None, s)
      | Some e \<Rightarrow>
          (if isValidCacheEntry now e
           then (data e, s\<lparr>cache := AList.update key (e\<lparr>lastAccessed := now\<rparr>) (cache s)\<rparr>)
           else (None, s)))"

text \<open>\<^verbatim>\<open>persistToStorage\<close> catches and logs a failed write.\<close>

definition persistToStorage :: "'v state \<Rightarrow> 'v state" where
  "persistToStorage s = snd (storage_set_productCache (cache s) s)"

text \<open>
  \<^verbatim>\<open>set(key, value)\<close>: a new entry with both timestamps fresh replaces any entry of the
  key, and the whole map is persisted.
\<close>

definition set_entry :: "int \<Rightarrow> string \<Rightarrow> 'v option \<Rightarrow> 'v state \<Rightarrow> 'v state" where
  "set_entry now key v s =
     persistToStorage
       (s\<lparr>cache := AList.update key \<lparr>data = v, timestamp = now, lastAccessed = now\<rparr> (cache s)\<rparr>)"

text \<open>
  The first loop of \<^verbatim>\<open>cleanup\<close>: the entries of the map are visited in order and the invalid
  ones deleted from it; \<open>deleted\<close> counts them.
\<close>

fun sweep :: "int \<Rightarrow> (string \<times> 'v entry) list \<Rightarrow> (string \<times> 'v entry) list \<Rightarrow> nat
    \<Rightarrow> (string \<times> 'v entry) list \<times> nat" where
  "sweep now [] m deleted = (m, deleted)"
| "sweep now ((key, e) # rest) m deleted =
     (if \<not> isValidCacheEntry now e then sweep now rest (AList.delete key m) (Suc deleted)
      else sweep now rest m deleted)"

text \<open>
  \<^verbatim>\<open>Array.from(this.data.entries()).sort((a, b) => b[1].lastAccessed - a[1].lastAccessed)\<close>:
  the sort is stable and descending in \<^verbatim>\<open>lastAccessed\<close>.
\<close>

definition sortedEntries :: "(string \<times> 'v entry) list \<Rightarrow> (string \<times> 'v entry) list" where
  "sortedEntries m = sort_key (\<lambda>a. - lastAccessed (snd a)) m"

text \<open>
  The \<^verbatim>\<open>while\<close> loop of \<^verbatim>\<open>cleanup\<close>. Its first argument is the sorted array in the order
  in which \<^verbatim>\<open>pop()\<close> returns its elements, last element first. Popping the empty array
  gives \<^verbatim>\<open>undefined\<close>, whose destructuring raises a \<^verbatim>\<open>TypeError\<close>.
\<close>

fun evict_loop :: "(string \<times> 'v entry) list \<Rightarrow> (string \<times> 'v entry) list \<Rightarrow> nat
    \<Rightarrow> js_error option \<times> (string \<times> 'v entry) list \<times> nat" where
  "evict_loop [] m deleted =
     (if length m > maxItems CACHE_CONFIG then (Some TypeError, m, deleted) else (None, m, deleted))"
| "evict_loop (p # pops) m deleted =
     (if length m > maxItems CACHE_CONFIG
      then evict_loop pops (AList.delete (fst p) m) (Suc deleted)
      else (None, m, deleted))"

text \<open>Both loops of \<^verbatim>\<open>cleanup\<close> on the map: the error raised (if any), the map and \<open>deleted\<close>.\<close>

definition cleanup_loops :: "int \<Rightarrow> (string \<times> 'v entry) list
    \<Rightarrow> js_error option \<times> (string \<times> 'v entry) list \<times> nat" where
  "cleanup_loops now m0 =
     (case sweep now m0 m0 0 of (m1, deleted1) \<Rightarrow>
        if length m1 > maxItems CACHE_CONFIG
        then evict_loop (rev (sortedEntries m1)) m1 deleted1
        else (None, m1, deleted1))"

definition cleanup :: "int \<Rightarrow> ('v, unit) io" where
  "cleanup now s =
     (case cleanup_loops now (cache s) of (err, m2, deleted) \<Rightarrow>
        (case err of
           Some e \<Rightarrow> (Inl e, s\<lparr>cache := m2\<rparr>)
         | None \<Rightarrow>
             if deleted > 0 then (Inr (), persistToStorage (s\<lparr>cache := m2\<rparr>))
             else (Inr (), s\<lparr>cache := m2\<rparr>)))"

definition clearCache :: "('v, unit) io" where
  "clearCache s = storage_remove_all (s\<lparr>cache := []\<rparr>)"

text \<open>The loading loop of \<^verbatim>\<open>initialize\<close> over the entries of the stored object.\<close>

fun load_entries :: "int \<Rightarrow> (string \<times> 'v entry) list \<Rightarrow> (string \<times> 'v entry) list
    \<Rightarrow> (string \<times> 'v entry) list" where
  "load_entries now [] m = m"
| "load_entries now ((key, v) # rest) m =
     load_entries now rest (if isValidCacheEntry now v then AList.update key v m else m)"

text \<open>The body of the \<^verbatim>\<open>try\<close> block of \<^verbatim>\<open>initialize\<close>.\<close>

definition initialize_try :: "int \<Rightarrow> ('v, unit) io" where
  "initialize_try now =
     bind_io storage_get_cacheMetadata (\<lambda>metadata.
     bind_io
       (let currentMetadata =
          (case metadata of
             Some m \<Rightarrow> m
           | None \<Rightarrow> \<lparr> md_version = version CACHE_CONFIG, lastCleanup = now \<rparr>)
        in if md_version currentMetadata \<noteq> version CACHE_CONFIG
           then bind_io clearCache
                  (\<lambda>_. return_io (currentMetadata\<lparr>md_version := version CACHE_CONFIG\<rparr>))
           else return_io currentMetadata) (\<lambda>currentMetadata.
     bind_io storage_get_productCache (\<lambda>result.
     bind_io
       (\<lambda>s. (Inr (),
          (case result of
             None \<Rightarrow> s
           | Some storedCache \<Rightarrow> s\<lparr>cache := load_entries now storedCache (cache s)\<rparr>))) (\<lambda>_.
     bind_io
       (if now - lastCleanup currentMetadata > 24 * 60 * 60 * 1000
        then bind_io (cleanup now) (\<lambda>_. return_io (currentMetadata\<lparr>lastCleanup := now\<rparr>))
        else return_io currentMetadata) (\<lambda>currentMetadata.
     bind_io (storage_set_cacheMetadata currentMetadata) (\<lambda>_.
     (\<lambda>s. (Inr (), s\<lparr>initialized := True\<rparr>))))))))"

text \<open>\<^verbatim>\<open>initialize\<close>: the early return, the \<^verbatim>\<open>try\<close> block and the \<^verbatim>\<open>catch\<close> block.\<close>

definition initialize :: "int \<Rightarrow> 'v state \<Rightarrow> 'v state" where
  "initialize now s =
     (if initialized s then s
      else (case initialize_try now s of
              (Inl e, s') \<Rightarrow> s'\<lparr>initialized := True\<rparr>
            | (Inr _, s') \<Rightarrow> s'))"

subsection \<open>Importing a cache file\<close>

text \<open>
  The uploaded file after \<^verbatim>\<open>JSON.parse\<close>: not JSON at all (the parse raises a
  \<^verbatim>\<open>SyntaxError\<close>), the JSON value \<^verbatim>\<open>null\<close> (reading \<^verbatim>\<open>data.version\<close> raises a
  \<^verbatim>\<open>TypeError\<close>), or an object whose \<^verbatim>\<open>version\<close> and \<^verbatim>\<open>items\<close> fields may be missing. A
  JSON number, string, boolean or array has neither field and reads as an object
  without them.
\<close>

record 'v cache_file =
  file_version :: "string option"
  items :: "(string \<times> 'v entry) list option"

datatype 'v upload = NotJSON | JsonNull | Parsed "'v cache_file"

text \<open>
  The result of an import is the error caught by its \<^verbatim>\<open>catch\<close> block, which is shown with
  \<^verbatim>\<open>alert('Failed to import cache: ' + error.message)\<close>, and the state.
\<close>

definition caught :: "(js_error + 'a) \<times> 'v state \<Rightarrow> js_error option \<times> 'v state" where
  "caught r = (case r of (Inl e, s') \<Rightarrow> (Some e, s') | (Inr _, s') \<Rightarrow> (None, s'))"

text \<open>
  \<^verbatim>\<open>importCache\<close> of \<^verbatim>\<open>popup.js\<close>: \<^verbatim>\<open>!data.version || !data.items\<close> rejects a missing or
  empty version and missing items; one storage call writes both keys;
  \<^verbatim>\<open>updateCacheStats\<close> reads them back.
\<close>

definition popup_importCache :: "int \<Rightarrow> 'v upload \<Rightarrow> 'v state \<Rightarrow> js_error option \<times> 'v state" where
  "popup_importCache now up s =
     (case up of
        NotJSON \<Rightarrow> (Some SyntaxError, s)
      | JsonNull \<Rightarrow> (Some TypeError, s)
      | Parsed d \<Rightarrow>
          (case (file_version d, items d) of
             (Some v, Some its) \<Rightarrow>
               if v = [] then (Some (Error ''Invalid cache file format''), s)
               else caught
                 (bind_io
                    (storage_call (\<lambda>s. ((), s\<lparr>productCache := Some its,
                       cacheMetadata := Some \<lparr> md_version = v, lastCleanup = now \<rparr>\<rparr>)))
                    (\<lambda>_. storage_call (\<lambda>s. ((), s))) s)
           | _ \<Rightarrow> (Some (Error ''Invalid cache file format''), s)))"

text \<open>
  \<^verbatim>\<open>importCache\<close> of \<^verbatim>\<open>content.js\<close>: the version must equal the running one; then the cache
  is cleared and every item is stored again with \<^verbatim>\<open>set(key, value.data)\<close>;
  \<^verbatim>\<open>createCacheStats\<close> reads the metadata.
\<close>

fun import_items :: "int \<Rightarrow> (string \<times> 'v entry) list \<Rightarrow> 'v state \<Rightarrow> 'v state" where
  "import_items now [] s = s"
| "import_items now ((key, v) # rest) s = import_items now rest (set_entry now key (data v) s)"

definition content_importCache :: "int \<Rightarrow> 'v upload \<Rightarrow> 'v state \<Rightarrow> js_error option \<times> 'v state" where
  "content_importCache now up s =
     (case up of
        NotJSON \<Rightarrow> (Some SyntaxError, s)
      | JsonNull \<Rightarrow> (Some TypeError, s)
      | Parsed d \<Rightarrow>
          if file_version d \<noteq> Some (version CACHE_CONFIG)
          then (Some (Error ''Cache version mismatch''), s)
          else caught
            (bind_io clearCache (\<lambda>_.
               (case items d of
                  None \<Rightarrow> (\<lambda>s. (Inl TypeError, s))
                | Some its \<Rightarrow>
                    bind_io (\<lambda>s. (Inr (), import_items now its s))
                      (\<lambda>_. storage_call (\<lambda>s. ((), s))))) s))"

subsection \<open>Numbers\<close>

text \<open>
  A JavaScript number is an IEEE 754 binary64 value: \<open>Fin q\<close> is the finite double whose
  exact value is the rational \<open>q\<close> (the two zeros are not told apart). Every operation
  rounds its exact result to the nearest double, ties to the even significand.
\<close>

datatype jsnum = NaN | PosInf | NegInf | Fin rat

definition round_half_even :: "rat \<Rightarrow> int" where
  "round_half_even x =
     (let f = \<lfloor>x\<rfloor>; r = x - of_int f
      in if r < 1 / 2 then f else if 1 / 2 < r then f + 1 else if even f then f else f + 1)"

text \<open>The binary exponent \<open>\<lfloor>log\<^sub>2 q\<rfloor>\<close> of a positive rational, by repeated halving or doubling.\<close>

function log2_up :: "rat \<Rightarrow> int \<Rightarrow> int" where
  "log2_up q e = (if 2 \<le> q then log2_up (q / 2) (e + 1) else e)"
  by pat_completeness auto
termination
  by (relation "measure (\<lambda>(q, e). nat \<lfloor>q\<rfloor>)") (auto simp: floor_less_iff, linarith)

function log2_down :: "rat \<Rightarrow> int \<Rightarrow> int" where
  "log2_down q e = (if 0 < q \<and> q < 1 then log2_down (q * 2) (e - 1) else e)"
  by pat_completeness auto
termination
proof (relation "measure (\<lambda>(q, e). nat \<lfloor>1 / q\<rfloor>)")
  show "wf (measure (\<lambda>(q::rat, e::int). nat \<lfloor>1 / q\<rfloor>))" by simp
next
  fix q :: rat and e :: int
  assume a: "0 < q \<and> q < 1"
  then have x: "1 < 1 / q" by simp
  have "\<lfloor>1 / (q * 2)\<rfloor> < \<lfloor>1 / q\<rfloor>"
  proof (cases "2 \<le> 1 / q")
    case True
    have "of_int \<lfloor>1 / (q * 2)\<rfloor> + 1 \<le> 1 / (q * 2) + 1" by simp
    also have "\<dots> \<le> 1 / q" using True by (simp add: field_simps)
    finally have "\<lfloor>1 / (q * 2)\<rfloor> + 1 \<le> \<lfloor>1 / q\<rfloor>" by (simp add: le_floor_iff)
    then show ?thesis by simp
  next
    case False
    then have "1 / (q * 2) < 1" using a by (simp add: field_simps)
    then have "\<lfloor>1 / (q * 2)\<rfloor> < 1" by (simp add: floor_less_iff)
    moreover have "1 \<le> \<lfloor>1 / q\<rfloor>" using x by (simp add: le_floor_iff)
    ultimately show ?thesis by linarith
  qed
  moreover have "0 < \<lfloor>1 / q\<rfloor>" using x by (simp add: less_floor_iff)
  ultimately show "((q * 2, e - 1), (q, e)) \<in> measure (\<lambda>(q, e). nat \<lfloor>1 / q\<rfloor>)"
    by simp
qed

declare log2_up.simps [simp del] log2_down.simps [simp del]

definition floor_log2 :: "rat \<Rightarrow> int" where
  "floor_log2 q = (if 1 \<le> q then log2_up q 0 else log2_down q 0)"

definition pow2 :: "int \<Rightarrow> rat" where
  "pow2 e = (if 0 \<le> e then 2 ^ nat e else 1 / 2 ^ nat (- e))"

text \<open>
  The double nearest to a rational: 53 significant bits, the spacing never below
  \<open>2\<^sup>-\<^sup>1\<^sup>0\<^sup>7\<^sup>4\<close> (subnormal numbers), an infinity from \<open>2\<^sup>1\<^sup>0\<^sup>2\<^sup>4\<close> on.
\<close>

definition round64 :: "rat \<Rightarrow> jsnum" where
  "round64 q =
     (if q = 0 then Fin 0
      else let u = pow2 (max (floor_log2 \<bar>q\<bar> - 52) (- 1074));
               v = of_int (round_half_even (\<bar>q\<bar> / u)) * u
           in if 2 ^ 1024 \<le> v then (if 0 < q then PosInf else NegInf)
              else Fin (if 0 < q then v else - v))"

definition negative :: "jsnum \<Rightarrow> bool" where
  "negative x = (case x of NegInf \<Rightarrow> True | Fin q \<Rightarrow> q < 0 | _ \<Rightarrow> False)"

text \<open>The operator \<^verbatim>\<open>*\<close> on two numbers.\<close>

definition times_num :: "jsnum \<Rightarrow> jsnum \<Rightarrow> jsnum" where
  "times_num x y =
     (case (x, y) of
        (Fin a, Fin b) \<Rightarrow> round64 (a * b)
      | _ \<Rightarrow>
          if x = NaN \<or> y = NaN \<or> x = Fin 0 \<or> y = Fin 0 then NaN
          else if negative x = negative y then PosInf else NegInf)"

text \<open>
  \<^verbatim>\<open>Number(x.toFixed(2))\<close>: below \<open>10\<^sup>2\<^sup>1\<close> the decimal string has the integer \<open>n\<close> nearest to
  \<open>100 |x|\<close> (the larger one of two) as its digits, and \<^verbatim>\<open>Number\<close> reads it back as the
  nearest double; from \<open>10\<^sup>2\<^sup>1\<close> on and for the non-finite values the string is the one
  of \<^verbatim>\<open>String(x)\<close>, which reads back as \<open>x\<close>.
\<close>

definition Number_toFixed2 :: "jsnum \<Rightarrow> jsnum" where
  "Number_toFixed2 x =
     (case x of
        Fin q \<Rightarrow>
          if 10 ^ 21 \<le> \<bar>q\<bar> then Fin q
          else (let n = \<lfloor>\<bar>q\<bar> * 100 + 1 / 2\<rfloor>
                in round64 (if q < 0 then - (of_int n / 100) else of_int n / 100))
      | _ \<Rightarrow> x)"

subsection \<open>Strings\<close>

text \<open>\<^verbatim>\<open>String.prototype.toLowerCase\<close> on the letters \<open>A\<close> to \<open>Z\<close>; other characters are kept.\<close>

definition lower_char :: "char \<Rightarrow> char" where
  "lower_char c =
     (let n = (of_char c :: nat) in if 65 \<le> n \<and> n \<le> 90 then char_of (n + 32) else c)"

definition toLowerCase :: "string \<Rightarrow> string" where
  "toLowerCase s = map lower_char s"

subsection \<open>Agent fee and currency conversion\<close>

text \<open>A decimal literal of the source is the double nearest to it.\<close>

definition literal :: "rat \<Rightarrow> jsnum" where
  "literal q = round64 q"

definition calculateAgentFee :: "jsnum \<Rightarrow> string \<Rightarrow> jsnum" where
  "calculateAgentFee price agent =
     (let a = toLowerCase agent
      in if a = ''superbuy'' then times_num price (literal (10238 / 10000))
         else if a = ''cssbuy'' then times_num price (literal (102 / 100))
         else if a = ''allchinabuy'' then times_num price (literal (104 / 100))
         else times_num price (literal (103 / 100)))"

text \<open>
  \<^verbatim>\<open>convertCurrency\<close>; \<open>rates\<close> is \<^verbatim>\<open>CURRENCY_CACHE.rates\<close>: \<open>None\<close> while no table is loaded,
  otherwise the table of the numbers stored under its keys. A rate is falsy when it is
  missing, zero or \<^verbatim>\<open>NaN\<close>.
\<close>

definition convertCurrency ::
  "(string \<Rightarrow> jsnum option) option \<Rightarrow> jsnum \<Rightarrow> string \<Rightarrow> string \<Rightarrow> jsnum" where
  "convertCurrency rates amount fromCurrency toCurrency =
     (case rates of
        None \<Rightarrow> amount
      | Some table \<Rightarrow>
          (case table (toLowerCase toCurrency) of
             None \<Rightarrow> amount
           | Some rate \<Rightarrow>
               if rate = NaN \<or> rate = Fin 0 then amount
               else Number_toFixed2 (times_num amount rate)))"

subsection \<open>Platform selection\<close>

record platform_config =
  baseUrl :: string
  priority :: int

text \<open>\<^verbatim>\<open>PLATFORM_CONFIG.platforms\<close>, in the order in which the object lists its keys.\<close>

definition platforms :: "(string \<times> platform_config) list" where
  "platforms =
     [(''taobao'', \<lparr> baseUrl = ''https://www.jadeship.com/item/taobao/'', priority = 1 \<rparr>),
      (''weidian'', \<lparr> baseUrl = ''https://www.jadeship.com/item/weidian/'', priority = 2 \<rparr>)]"

text \<open>
  \<open>price_data\<close> is an object \<^verbatim>\<open>{price, link}\<close> (\<open>None\<close> is \<^verbatim>\<open>null\<close>); \<open>resolved_price\<close> is
  what the selection returns: the same two fields and, for an available price, the
  \<^verbatim>\<open>platform\<close> and \<^verbatim>\<open>priority\<close> fields added by the spread.
\<close>

record price_data =
  price :: string
  link :: "string option"

record resolved_price = price_data +
  platform :: "string option"
  with_priority :: "int option"

definition unavailable :: resolved_price where
  "unavailable = \<lparr> price = ''N/A'', link = None, platform = None, with_priority = None \<rparr>"

text \<open>\<^verbatim>\<open>data.price !== 'N/A' && data.link\<close>: a link is truthy iff it is a non-empty string.\<close>

definition available :: "price_data \<Rightarrow> bool" where
  "available d \<longleftrightarrow> price d \<noteq> ''N/A'' \<and> link d \<noteq> None \<and> link d \<noteq> Some []"

text \<open>
  The \<^verbatim>\<open>map\<close> callback of \<^verbatim>\<open>selectPlatformPrice\<close>; \<^verbatim>\<open>platforms[platform].priority\<close>
  raises a \<^verbatim>\<open>TypeError\<close> for a platform that is not configured.
\<close>

definition with_platform :: "string \<times> price_data \<Rightarrow> js_error + (int \<times> resolved_price)" where
  "with_platform a =
     (case map_of platforms (fst a) of
        None \<Rightarrow> Inl TypeError
      | Some c \<Rightarrow>
          Inr (priority c,
               \<lparr> price = price (snd a), link = link (snd a), platform = Some (fst a),
                 with_priority = Some (priority c) \<rparr>))"

fun map_throwing :: "('a \<Rightarrow> js_error + 'b) \<Rightarrow> 'a list \<Rightarrow> js_error + 'b list" where
  "map_throwing f [] = Inr []"
| "map_throwing f (x # xs) =
     (case f x of
        Inl e \<Rightarrow> Inl e
      | Inr y \<Rightarrow> (case map_throwing f xs of Inl e \<Rightarrow> Inl e | Inr ys \<Rightarrow> Inr (y # ys)))"

text \<open>
  \<^verbatim>\<open>selectPlatformPrice(prices)\<close>; \<open>prices\<close> is the object as the list of its entries. Both
  sorts are stable and ascending in the priority; each available price is paired with
  its priority, the sort key.
\<close>

definition selectPlatformPrice :: "(string \<times> price_data) list \<Rightarrow> js_error + resolved_price" where
  "selectPlatformPrice prices =
     (case map_throwing with_platform (filter (\<lambda>a. available (snd a)) prices) of
        Inl e \<Rightarrow> Inl e
      | Inr availablePrices \<Rightarrow>
          if length availablePrices = 0
          then (case sort_key (\<lambda>a. priority (snd a)) platforms of
                  [] \<Rightarrow> Inl TypeError
                | (highestPriority, _) # _ \<Rightarrow>
                    (case map_of prices highestPriority of
                       Some d \<Rightarrow>
                         Inr \<lparr> price = price d, link = link d, platform = None,
                               with_priority = None \<rparr>
                     | None \<Rightarrow> Inr unavailable))
          else (case sort_key fst availablePrices of
                  [] \<Rightarrow> Inl TypeError
                | (_, a) # _ \<Rightarrow> Inr a))"

subsection \<open>Fetching the product details\<close>

text \<open>
  A promise stays pending for ever, is rejected with an error, or is resolved to a value.
\<close>

datatype 'a promise = Pending | Rejected js_error | Resolved 'a

text \<open>
  What the outside world answers during one call of \<^verbatim>\<open>fetchProductDetails\<close>. \<open>race\<close> is the
  outcome of \<^verbatim>\<open>Promise.race([fetch(productLink), timeout])\<close> followed by
  \<^verbatim>\<open>response.text()\<close> and the parsing of the document: the timer fires first (also when
  the fetch never settles), the fetch rejects, the body read never settles (the timer
  guards the fetch only), reading or parsing the body raises, or the two regular
  expressions give their matches on the subtitle text (\<open>None\<close>: no match).
\<close>

record page =
  taobaoMatch :: "string option"
  weidianMatch :: "string option"

datatype fetch_outcome = Timeout | FetchRejected | BodyPending | BodyFailed | Html page

text \<open>
  The answer to the \<^verbatim>\<open>fetchPrice\<close> message, which no timer guards: the promise never
  settles, or it rejects, or it resolves to no response, or to \<^verbatim>\<open>{success, data}\<close>;
  \<open>priceText\<close> is the text of the price element found in \<^verbatim>\<open>data\<close>, if any.
\<close>

record price_response =
  success :: bool
  priceText :: "string option"

datatype message_outcome =
  MessagePending | MessageRejected | MessageResponse "price_response option"

record env =
  race :: fetch_outcome
  extractTaobaoId :: "string \<Rightarrow> string option"
  extractWeidianId :: "string \<Rightarrow> string option"
  taobaoPrice :: message_outcome
  weidianPrice :: message_outcome

text \<open>
  \<^verbatim>\<open>fetchPriceForPlatform(platform, link, extractId)\<close>, as a function of \<open>prices\<close>: a truthy
  product id sets the link and sends the message; a successful response sets the price
  (\<^verbatim>\<open>textContent || 'N/A'\<close>); a rejected message is caught and logged. The result is
  \<open>None\<close> when the call never settles, which is when its message never does.
\<close>

definition fetchPriceForPlatform ::
  "string \<Rightarrow> string \<Rightarrow> (string \<Rightarrow> string option) \<Rightarrow> message_outcome
    \<Rightarrow> (string \<times> price_data) list \<Rightarrow> (string \<times> price_data) list option" where
  "fetchPriceForPlatform pf lnk extractId answer prices =
     (case extractId (''https://'' @ lnk) of
        None \<Rightarrow> Some prices
      | Some productId \<Rightarrow>
          if productId = [] then Some prices
          else
            (let prices1 = AList.map_entry pf (\<lambda>d. d\<lparr>link := Some lnk\<rparr>) prices
             in case answer of
                  MessagePending \<Rightarrow> None
                | MessageRejected \<Rightarrow> Some prices1
                | MessageResponse None \<Rightarrow> Some prices1
                | MessageResponse (Some r) \<Rightarrow>
                    if success r
                    then Some (AList.map_entry pf
                           (\<lambda>d. d\<lparr>price :=
                              (case priceText r of
                                 None \<Rightarrow> ''N/A''
                               | Some t \<Rightarrow> if t = [] then ''N/A'' else t)\<rparr>) prices1)
                    else Some prices1))"

text \<open>
  The body of the \<^verbatim>\<open>try\<close> block of \<^verbatim>\<open>fetchProductDetails\<close>. The two calls of
  \<^verbatim>\<open>fetchPriceForPlatform\<close> write different keys of \<open>prices\<close> and never reject;
  \<^verbatim>\<open>Promise.all\<close> waits for both and stays pending when one of them does.
\<close>

definition fetchProductDetails_try :: "env \<Rightarrow> resolved_price promise" where
  "fetchProductDetails_try w =
     (case race w of
        Timeout \<Rightarrow> Rejected (Error ''Timeout'')
      | FetchRejected \<Rightarrow> Rejected TypeError
      | BodyPending \<Rightarrow> Pending
      | BodyFailed \<Rightarrow> Rejected TypeError
      | Html pg \<Rightarrow>
          (let prices0 = [(''taobao'', \<lparr> price = ''N/A'', link = None \<rparr>),
                          (''weidian'', \<lparr> price = ''N/A'', link = None \<rparr>)]
           in case (case taobaoMatch pg of
                      None \<Rightarrow> Some prices0
                    | Some m \<Rightarrow>
                        fetchPriceForPlatform ''taobao'' m (extractTaobaoId w)
                          (taobaoPrice w) prices0) of
                None \<Rightarrow> Pending
              | Some prices1 \<Rightarrow>
                  (case (case weidianMatch pg of
                           None \<Rightarrow> Some prices1
                         | Some m \<Rightarrow>
                             fetchPriceForPlatform ''weidian'' m (extractWeidianId w)
                               (weidianPrice w) prices1) of
                     None \<Rightarrow> Pending
                   | Some prices2 \<Rightarrow>
                       (case selectPlatformPrice prices2 of
                          Inl e \<Rightarrow> Rejected e
                        | Inr r \<Rightarrow> Resolved r))))"

text \<open>\<^verbatim>\<open>fetchProductDetails\<close>: the \<^verbatim>\<open>catch\<close> block turns every error into a value.\<close>

definition fetchProductDetails :: "env \<Rightarrow> resolved_price promise" where
  "fetchProductDetails w =
     (case fetchProductDetails_try w of
        Pending \<Rightarrow> Pending
      | Rejected e \<Rightarrow> Resolved unavailable
      | Resolved r \<Rightarrow> Resolved r)"

subsection \<open>Example states\<close>


definition aged_state :: "unit state" where
  "aged_state =
     \<lparr> cache = [(''a'', \<lparr> data = Some (), timestamp = 1, lastAccessed = 5 \<rparr>),
                (''b'', \<lparr> data = Some (), timestamp = 700000000, lastAccessed = 700000000 \<rparr>)],
       initialized = True, productCache = None, cacheMetadata = None, faults = [] \<rparr>"

definition stale_state :: "unit state" where
  "stale_state =
     \<lparr> cache = [], initialized = False,
       productCache = Some [(''k'', \<lparr> data = Some (), timestamp = 999, lastAccessed = 999 \<rparr>)],
       cacheMetadata = Some \<lparr> md_version = ''0.9.0'', lastCleanup = 900 \<rparr>,
       faults = [] \<rparr>"

definition failing_state :: "unit state" where
  "failing_state =
     \<lparr> cache = [], initialized = False,
       productCache = Some [(''k'', \<lparr> data = Some (), timestamp = 999, lastAccessed = 999 \<rparr>)],
       cacheMetadata = None,
       faults = [False, True] \<rparr>"

definition live_state :: "unit state" where
  "live_state =
     \<lparr> cache = [(''k'', \<lparr> data = Some (), timestamp = 999, lastAccessed = 999 \<rparr>)],
       initialized = True,
       productCache = Some [(''k'', \<lparr> data = Some (), timestamp = 999, lastAccessed = 999 \<rparr>)],
       cacheMetadata = Some \<lparr> md_version = ''1.0.0'', lastCleanup = 900 \<rparr>,
       faults = [] \<rparr>"

text \<open>
  Answers of the outside world: the timer fires; the page arrives but its body never
  does; the page arrives with a Taobao link and the price message is never answered.
\<close>

definition timed_out :: env where
  "timed_out =
     \<lparr> race = Timeout, extractTaobaoId = (\<lambda>u. None), extractWeidianId = (\<lambda>u. None),
       taobaoPrice = MessageRejected, weidianPrice = MessageRejected \<rparr>"

definition stalled_body :: env where
  "stalled_body =
     \<lparr> race = BodyPending, extractTaobaoId = (\<lambda>u. None), extractWeidianId = (\<lambda>u. None),
       taobaoPrice = MessageRejected, weidianPrice = MessageRejected \<rparr>"

definition stalled_message :: env where
  "stalled_message =
     \<lparr> race = Html \<lparr> taobaoMatch = Some ''item.taobao.com/item.htm?id=1'',
                       weidianMatch = None \<rparr>,
       extractTaobaoId = (\<lambda>u. Some ''1''), extractWeidianId = (\<lambda>u. None),
       taobaoPrice = MessagePending, weidianPrice = MessageRejected \<rparr>"

section \<open>Properties\<close>

subsection \<open>Auxiliary facts\<close>

lemma maxAge_val: "maxAge CACHE_CONFIG = 604800000"
  by (simp add: CACHE_CONFIG_def)

lemma persist_cache: "cache (persistToStorage s) = cache s"
  by (simp add: persistToStorage_def storage_set_productCache_def storage_call_def
      split: list.splits)

subsection \<open>Reading the cache\<close>

text \<open>
  Claim C1. \<^verbatim>\<open>get(k)\<close> returns a payload only if the entry of \<open>k\<close> is younger than
  \<^verbatim>\<open>maxAge\<close>, seven days: \<open>now - timestamp < 604800000\<close>. For an entry that has reached
  that age, and for a key that has no entry, it returns \<^verbatim>\<open>null\<close> and leaves the state as
  it is; no branch of it throws. In particular a payload stored with \<^verbatim>\<open>set\<close> at time \<open>t0\<close>
  and read at time \<open>t1\<close>, with no \<^verbatim>\<open>set\<close> in between, is returned exactly while
  \<open>t1 - t0 < 604800000\<close> (and \<open>t0\<close> is not the zero timestamp, which is falsy).
\<close>

theorem get_only_fresh:
  "(fst (get now k s) = Some v \<longrightarrow>
      (\<exists>e. map_of (cache s) k = Some e \<and> data e = Some v \<and> now - timestamp e < 604800000))
   \<and> (\<forall>e. map_of (cache s) k = Some e \<and> 604800000 \<le> now - timestamp e
         \<longrightarrow> get now k s = (None, s))
   \<and> (map_of (cache s) k = None \<longrightarrow> get now k s = (None, s))
   \<and> fst (get t1 k (set_entry t0 k (Some v) s)) =
       (if t0 \<noteq> 0 \<and> t1 - t0 < 604800000 then Some v else None)"
proof (intro conjI allI impI)
  assume "fst (get now k s) = Some v"
  then show "\<exists>e. map_of (cache s) k = Some e \<and> data e = Some v \<and> now - timestamp e < 604800000"
    by (auto simp: get_def isValidCacheEntry_def maxAge_val split: option.splits if_splits)
next
  fix e assume "map_of (cache s) k = Some e \<and> 604800000 \<le> now - timestamp e"
  then show "get now k s = (None, s)"
    by (simp add: get_def isValidCacheEntry_def maxAge_val)
next
  assume "map_of (cache s) k = None"
  then show "get now k s = (None, s)" by (simp add: get_def)
next
  have "map_of (cache (set_entry t0 k (Some v) s)) k =
      Some \<lparr>data = Some v, timestamp = t0, lastAccessed = t0\<rparr>"
    by (simp add: set_entry_def persist_cache update_conv)
  then show "fst (get t1 k (set_entry t0 k (Some v) s)) =
       (if t0 \<noteq> 0 \<and> t1 - t0 < 604800000 then Some v else None)"
    by (simp add: get_def isValidCacheEntry_def maxAge_val)
qed

theorem get_only_fresh_witness:
  "fst (get 604800999 ''k'' (set_entry 1000 ''k'' (Some (7::nat))
      \<lparr> cache = [], initialized = True, productCache = None, cacheMetadata = None,
        faults = [] \<rparr>)) = Some 7
   \<and> fst (get 604801000 ''k'' (set_entry 1000 ''k'' (Some (7::nat))
      \<lparr> cache = [], initialized = True, productCache = None, cacheMetadata = None,
        faults = [] \<rparr>)) = None"
  using
    get_only_fresh [of 0 "''k''" "\<lparr> cache = [], initialized = True, productCache = None,
      cacheMetadata = None, faults = [] \<rparr>" "7::nat" 604800999 1000]
    get_only_fresh [of 0 "''k''" "\<lparr> cache = [], initialized = True, productCache = None,
      cacheMetadata = None, faults = [] \<rparr>" "7::nat" 604801000 1000]
  by simp

subsection \<open>The cleanup sweep\<close>

lemma maxItems_val: "maxItems CACHE_CONFIG = 1000"
  by (simp add: CACHE_CONFIG_def)

lemma delete_filter: "AList.delete k m = filter (\<lambda>a. fst a \<noteq> k) m"
  by (induction m) auto

lemma sweep_eq:
  "sweep now xs m d =
     (filter (\<lambda>a. fst a \<notin> fst ` {x \<in> set xs. \<not> isValidCacheEntry now (snd x)}) m,
      d + length (filter (\<lambda>x. \<not> isValidCacheEntry now (snd x)) xs))"
proof (induction xs arbitrary: m d)
  case Nil
  then show ?case by simp
next
  case (Cons x xs)
  obtain key e where x: "x = (key, e)" by (cases x)
  show ?case
  proof (cases "isValidCacheEntry now e")
    case True
    have "{y \<in> set (x # xs). \<not> isValidCacheEntry now (snd y)} =
          {y \<in> set xs. \<not> isValidCacheEntry now (snd y)}"
      using True x by auto
    then show ?thesis using True x Cons.IH by simp
  next
    case False
    have "{y \<in> set (x # xs). \<not> isValidCacheEntry now (snd y)} =
          insert x {y \<in> set xs. \<not> isValidCacheEntry now (snd y)}"
      using False x by auto
    then show ?thesis using False x Cons.IH
      by (auto simp: delete_filter intro!: filter_cong)
  qed
qed

lemma sweep_valid:
  assumes "sweep now m m d = (m1, d1)" and "a \<in> set m1"
  shows "a \<in> set m \<and> isValidCacheEntry now (snd a)"
  using assms by (auto simp: sweep_eq)


lemma sweep_all_valid:
  assumes "\<forall>a \<in> set m. isValidCacheEntry now (snd a)"
  shows "sweep now m m d = (m, d)"
proof -
  have e: "{x \<in> set m. \<not> isValidCacheEntry now (snd x)} = {}" using assms by auto
  have f: "filter (\<lambda>x. \<not> isValidCacheEntry now (snd x)) m = []"
    using assms by (simp add: filter_empty_conv)
  show ?thesis unfolding sweep_eq e f by simp
qed

lemma evict_loop_eq:
  assumes "fst ` set m \<subseteq> fst ` set ps"
  shows "\<exists>j\<le>length ps. evict_loop ps m d =
            (None, filter (\<lambda>a. fst a \<notin> fst ` set (take j ps)) m, d + j)
          \<and> length (filter (\<lambda>a. fst a \<notin> fst ` set (take j ps)) m) \<le> maxItems CACHE_CONFIG"
  using assms
proof (induction ps arbitrary: m d)
  case Nil
  then show ?case by simp
next
  case (Cons p ps)
  show ?case
  proof (cases "length m > maxItems CACHE_CONFIG")
    case False
    then have "evict_loop (p # ps) m d = (None, filter (\<lambda>a. fst a \<notin> fst ` set (take 0 (p # ps))) m, d + 0)
      \<and> length (filter (\<lambda>a. fst a \<notin> fst ` set (take 0 (p # ps))) m) \<le> maxItems CACHE_CONFIG"
      by simp
    then show ?thesis by blast
  next
    case True
    have "fst ` set (AList.delete (fst p) m) \<subseteq> fst ` set ps"
      using Cons.prems by (auto simp: delete_filter)
    from Cons.IH [OF this, of "Suc d"] obtain j where j: "j \<le> length ps"
      "evict_loop ps (AList.delete (fst p) m) (Suc d) =
         (None, filter (\<lambda>a. fst a \<notin> fst ` set (take j ps)) (AList.delete (fst p) m), Suc d + j)"
      "length (filter (\<lambda>a. fst a \<notin> fst ` set (take j ps)) (AList.delete (fst p) m)) \<le> maxItems CACHE_CONFIG"
      by blast
    have eq: "filter (\<lambda>a. fst a \<notin> fst ` set (take j ps)) (AList.delete (fst p) m) =
          filter (\<lambda>a. fst a \<notin> fst ` set (take (Suc j) (p # ps))) m"
      by (auto simp: delete_filter intro!: filter_cong)
    have "Suc j \<le> length (p # ps)" using j(1) by simp
    moreover have "evict_loop (p # ps) m d =
        (None, filter (\<lambda>a. fst a \<notin> fst ` set (take (Suc j) (p # ps))) m, d + Suc j)"
      using True j(2) eq by simp
    moreover have "length (filter (\<lambda>a. fst a \<notin> fst ` set (take (Suc j) (p # ps))) m) \<le> maxItems CACHE_CONFIG"
      using j(3) eq by simp
    ultimately show ?thesis by blast
  qed
qed


lemma set_sortedEntries: "set (sortedEntries m) = set m"
  by (simp add: sortedEntries_def)

lemma cleanup_loops_ok:
  "\<exists>m2 d. cleanup_loops now m = (None, m2, d) \<and> length m2 \<le> maxItems CACHE_CONFIG
     \<and> (\<forall>a \<in> set m2. a \<in> set m \<and> isValidCacheEntry now (snd a))"
proof -
  obtain m1 d1 where sw: "sweep now m m 0 = (m1, d1)" by (cases "sweep now m m 0")
  have v: "\<forall>a \<in> set m1. a \<in> set m \<and> isValidCacheEntry now (snd a)"
    using sweep_valid [OF sw] by blast
  show ?thesis
  proof (cases "length m1 > maxItems CACHE_CONFIG")
    case False
    then show ?thesis using sw v by (simp add: cleanup_loops_def)
  next
    case True
    have "fst ` set m1 \<subseteq> fst ` set (rev (sortedEntries m1))" by (simp add: set_sortedEntries)
    from evict_loop_eq [OF this, of d1] obtain j where
      j: "evict_loop (rev (sortedEntries m1)) m1 d1 =
            (None, filter (\<lambda>a. fst a \<notin> fst ` set (take j (rev (sortedEntries m1)))) m1, d1 + j)"
         "length (filter (\<lambda>a. fst a \<notin> fst ` set (take j (rev (sortedEntries m1)))) m1)
            \<le> maxItems CACHE_CONFIG"
      by blast
    have "cleanup_loops now m =
        (None, filter (\<lambda>a. fst a \<notin> fst ` set (take j (rev (sortedEntries m1)))) m1, d1 + j)"
      using sw True j(1) by (simp add: cleanup_loops_def)
    moreover have "\<forall>a \<in> set (filter (\<lambda>a. fst a \<notin> fst ` set (take j (rev (sortedEntries m1)))) m1).
        a \<in> set m \<and> isValidCacheEntry now (snd a)"
      using v by simp
    ultimately show ?thesis using j(2) by blast
  qed
qed

lemma cleanup_loops_fixed:
  assumes "length m \<le> maxItems CACHE_CONFIG" and "\<forall>a \<in> set m. isValidCacheEntry now (snd a)"
  shows "cleanup_loops now m = (None, m, 0)"
  using assms by (simp add: cleanup_loops_def sweep_all_valid)


lemma cleanup_result:
  "\<exists>m2 d. cleanup_loops now (cache s) = (None, m2, d) \<and> fst (cleanup now s) = Inr ()
     \<and> cache (snd (cleanup now s)) = m2"
proof -
  from cleanup_loops_ok [of now "cache s"] obtain m2 d where
    "cleanup_loops now (cache s) = (None, m2, d)" by blast
  then show ?thesis by (simp add: cleanup_def persist_cache)
qed



text \<open>
  Claim C8. \<^verbatim>\<open>cleanup()\<close> is idempotent: a second call at the same clock reading
  deletes nothing (the counter \<open>deleted\<close> stays at 0), writes nothing and leaves the
  state as it is; the same holds for a second call at a later reading \<open>now2\<close> provided no
  retained entry has expired by then.
\<close>

theorem cleanup_idempotent:
  "cleanup now (snd (cleanup now s)) = (Inr (), snd (cleanup now s))
   \<and> cleanup_loops now (cache (snd (cleanup now s))) = (None, cache (snd (cleanup now s)), 0)
   \<and> ((\<forall>a \<in> set (cache (snd (cleanup now s))). isValidCacheEntry now2 (snd a)) \<longrightarrow>
        cleanup now2 (snd (cleanup now s)) = (Inr (), snd (cleanup now s))
        \<and> cleanup_loops now2 (cache (snd (cleanup now s)))
            = (None, cache (snd (cleanup now s)), 0))"
proof -
  let ?s1 = "snd (cleanup now s)"
  from cleanup_result [of now s] obtain m2 d where
    r: "cleanup_loops now (cache s) = (None, m2, d)" "cache ?s1 = m2"
    by blast
  from cleanup_loops_ok [of now "cache s"] r(1) have
    ok: "length (cache ?s1) \<le> maxItems CACHE_CONFIG"
        "\<forall>a \<in> set (cache ?s1). isValidCacheEntry now (snd a)"
    using r(2) by auto
  have fixed: "cleanup_loops t (cache ?s1) = (None, cache ?s1, 0) \<and> cleanup t ?s1 = (Inr (), ?s1)"
    if "\<forall>a \<in> set (cache ?s1). isValidCacheEntry t (snd a)" for t
  proof -
    have "cleanup_loops t (cache ?s1) = (None, cache ?s1, 0)"
      by (rule cleanup_loops_fixed [OF ok(1) that])
    then show ?thesis by (simp add: cleanup_def)
  qed
  show ?thesis using fixed [of now] fixed [of now2] ok(2) by blast
qed

theorem cleanup_idempotent_witness:
  "cache (snd (cleanup 700000001 aged_state)) =
     [(''b'', \<lparr> data = Some (), timestamp = 700000000, lastAccessed = 700000000 \<rparr>)]
   \<and> cleanup 700000002 (snd (cleanup 700000001 aged_state))
       = (Inr (), snd (cleanup 700000001 aged_state))"
proof -
  have c: "cache (snd (cleanup 700000001 aged_state)) =
     [(''b'', \<lparr> data = Some (), timestamp = 700000000, lastAccessed = 700000000 \<rparr>)]"
    by (simp add: cleanup_def cleanup_loops_def aged_state_def isValidCacheEntry_def
        maxAge_val maxItems_val persist_cache)
  have "\<forall>a \<in> set (cache (snd (cleanup 700000001 aged_state))). isValidCacheEntry 700000002 (snd a)"
    by (simp add: c isValidCacheEntry_def maxAge_val)
  with cleanup_idempotent [of 700000001 aged_state 700000002] c show ?thesis by blast
qed


subsection \<open>Initialization\<close>

lemma version_val: "version CACHE_CONFIG = ''1.0.0''"
  by (simp add: CACHE_CONFIG_def)

lemma notin_tl: "x \<notin> set xs \<Longrightarrow> x \<notin> set (tl xs)"
  by (cases xs) auto

lemma storage_call_no_faults:
  "no_faults s \<Longrightarrow>
     storage_call f s =
       (Inr (fst (f (s\<lparr>faults := tl (faults s)\<rparr>))), snd (f (s\<lparr>faults := tl (faults s)\<rparr>)))"
  by (cases "faults s"; cases s) (auto simp: storage_call_def no_faults_def split: prod.splits)

lemma no_faults_persist: "no_faults s \<Longrightarrow> no_faults (persistToStorage s)"
  by (simp add: persistToStorage_def storage_set_productCache_def storage_call_no_faults)
     (simp add: no_faults_def notin_tl)

lemma persist_meta: "cacheMetadata (persistToStorage s) = cacheMetadata s"
  by (simp add: persistToStorage_def storage_set_productCache_def storage_call_def
      split: list.splits)

lemma cleanup_frame:
  "fst (cleanup now s) = Inr ()
   \<and> cacheMetadata (snd (cleanup now s)) = cacheMetadata s
   \<and> (no_faults s \<longrightarrow> no_faults (snd (cleanup now s)))"
proof -
  from cleanup_loops_ok [of now "cache s"] obtain m2 d where
    r: "cleanup_loops now (cache s) = (None, m2, d)" by blast
  have "no_faults (s\<lparr>cache := m2\<rparr>) = no_faults s" by (simp add: no_faults_def)
  then show ?thesis using r no_faults_persist [of "s\<lparr>cache := m2\<rparr>"]
    by (simp add: cleanup_def persist_meta)
qed

lemma bind_cleanup: "bind_io (cleanup now) f s = f () (snd (cleanup now s))"
  using cleanup_frame [of now s] by (cases "cleanup now s") (simp add: bind_io_def)

lemma bind_assoc: "bind_io (bind_io m f) g = bind_io m (\<lambda>x. bind_io (f x) g)"
  by (rule ext) (simp add: bind_io_def split: prod.splits sum.splits)

lemma bind_return: "bind_io (return_io a) g s = g a s"
  by (simp add: bind_io_def return_io_def)

lemma bind_pure: "bind_io (\<lambda>s. (Inr a, h s)) g s = g a (h s)"
  by (simp add: bind_io_def)

lemma bind_storage_call:
  "no_faults s \<Longrightarrow>
     bind_io (storage_call f) g s =
       g (fst (f (s\<lparr>faults := tl (faults s)\<rparr>))) (snd (f (s\<lparr>faults := tl (faults s)\<rparr>)))"
  by (simp add: bind_io_def storage_call_no_faults)

lemma bind_clearCache:
  "no_faults s \<Longrightarrow>
     bind_io clearCache g s =
       g () (s\<lparr>cache := [], faults := tl (faults s), productCache := None, cacheMetadata := None\<rparr>)"
  by (simp add: bind_io_def clearCache_def storage_remove_all_def storage_call_no_faults
      no_faults_def)

lemma no_faults_simps:
  "no_faults (s\<lparr>faults := fs\<rparr>) = (True \<notin> set fs)"
  "no_faults (s\<lparr>cache := c\<rparr>) = no_faults s"
  "no_faults (s\<lparr>productCache := pc\<rparr>) = no_faults s"
  "no_faults (s\<lparr>cacheMetadata := cm\<rparr>) = no_faults s"
  by (simp_all add: no_faults_def)

lemma no_faults_cleanup: "no_faults s \<Longrightarrow> no_faults (snd (cleanup now s))"
  using cleanup_frame [of now s] by simp

lemma cleanup_meta: "cacheMetadata (snd (cleanup now s)) = cacheMetadata s"
  using cleanup_frame [of now s] by simp

lemma initialize_no_faults:
  assumes "\<not> initialized s" and "no_faults s"
  shows "cacheMetadata (initialize now s) =
      Some \<lparr> md_version = ''1.0.0'',
             lastCleanup = (case cacheMetadata s of
                              None \<Rightarrow> now
                            | Some m \<Rightarrow> if now - lastCleanup m > 86400000 then now
                                        else lastCleanup m) \<rparr>"
proof -
  have tl1: "True \<notin> set (tl (faults s))" "True \<notin> set (tl (tl (faults s)))"
    "True \<notin> set (tl (tl (tl (faults s))))" "True \<notin> set (faults s)"
    using assms(2) by (simp_all add: no_faults_def notin_tl)
  show ?thesis using assms tl1
    by (simp add: initialize_def initialize_try_def Let_def
        storage_get_cacheMetadata_def storage_get_productCache_def storage_set_cacheMetadata_def
        bind_assoc bind_return bind_pure bind_storage_call bind_clearCache bind_cleanup
        no_faults_simps no_faults_cleanup cleanup_meta version_val
        split: option.splits)
qed

lemma cleanup_empty: "cache s = [] \<Longrightarrow> cleanup now s = (Inr (), s)"
  by (simp add: cleanup_def cleanup_loops_def)

lemma initialize_mismatch:
  assumes "\<not> initialized s"
    and "faults s = [] \<or> \<not> hd (faults s)"
    and "cacheMetadata s = Some m" "md_version m \<noteq> ''1.0.0''"
  shows "cache (initialize now s) = [] \<and> initialized (initialize now s)
     \<and> (True \<notin> set (take 2 (faults s)) \<longrightarrow> productCache (initialize now s) = None)"
  using assms
  by (auto simp: initialize_def initialize_try_def bind_io_def return_io_def version_val
      storage_get_cacheMetadata_def storage_get_productCache_def storage_set_cacheMetadata_def
      clearCache_def storage_remove_all_def storage_call_def cleanup_def cleanup_loops_def
      split: list.splits)

lemma bind_InrE:
  assumes "bind_io m f s = (Inr x, s')"
  obtains a t where "m s = (Inr a, t)" "f a t = (Inr x, s')"
  using assms by (auto simp: bind_io_def split: prod.splits sum.splits)

lemma initialize_try_initialized:
  assumes "initialize_try now s = (Inr x, s')"
  shows "initialized s'"
  using assms unfolding initialize_try_def
  by (elim bind_InrE) auto

lemma bind_InlE:
  assumes "bind_io m f s = (Inl e, s')"
  obtains "m s = (Inl e, s')" | a t where "m s = (Inr a, t)" "f a t = (Inl e, s')"
  using assms by (auto simp: bind_io_def split: prod.splits sum.splits)

lemma cleanup_InlD: "cleanup now t = (Inl e, s') \<Longrightarrow> False"
  using cleanup_frame [of now t] by simp

lemma cleanup_InrD: "cleanup now t = (Inr a, t') \<Longrightarrow> cacheMetadata t' = cacheMetadata t"
  using cleanup_frame [of now t] by simp

lemma initialize_try_error_meta:
  assumes "initialize_try now s = (Inl e, s')"
  shows "cacheMetadata s' = cacheMetadata s \<or> cacheMetadata s' = None"
  using assms unfolding initialize_try_def Let_def
  apply (elim bind_InlE bind_InrE)
  apply (auto simp: storage_get_cacheMetadata_def storage_get_productCache_def
      storage_set_cacheMetadata_def clearCache_def storage_remove_all_def storage_call_def
      return_io_def bind_io_def
      dest: cleanup_InlD cleanup_InrD split: list.splits if_splits option.splits prod.splits sum.splits)
  done


lemma initialize_mismatch_meta:
  assumes "\<not> initialized s"
    and "faults s = [] \<or> \<not> hd (faults s)"
    and "cacheMetadata s = Some m" "md_version m \<noteq> ''1.0.0''"
    and "True \<notin> set (take 2 (faults s))"
  shows "cacheMetadata (initialize now s) =
     (if True \<in> set (take 4 (faults s)) then None
      else Some \<lparr> md_version = ''1.0.0'',
                  lastCleanup = (if now - lastCleanup m > 86400000 then now
                                 else lastCleanup m) \<rparr>)"
  using assms
  by (auto simp: initialize_def initialize_try_def bind_io_def return_io_def version_val
      storage_get_cacheMetadata_def storage_get_productCache_def storage_set_cacheMetadata_def
      clearCache_def storage_remove_all_def storage_call_def cleanup_def cleanup_loops_def
      split: list.splits)

text \<open>
  Claim C3. When \<^verbatim>\<open>initialize()\<close> runs on a cache that is not yet initialized and reads a
  persisted metadata record whose version is not \<^verbatim>\<open>CACHE_CONFIG.version\<close> = \<open>1.0.0\<close>, the
  cache is empty after it, whatever was in memory or persisted and whichever later
  storage call fails. When the removal succeeds, the persisted entry map and the
  persisted metadata record are gone from the store before any entry is read: the
  entry map stays absent, and the metadata is absent when a later storage call of the
  run fails and is otherwise the record written at the end, with the running version.
\<close>

theorem initialize_version_mismatch:
  assumes "\<not> initialized s"
    and "faults s = [] \<or> \<not> hd (faults s)"
    and "cacheMetadata s = Some m"
    and "md_version m \<noteq> ''1.0.0''"
  shows "cache (initialize now s) = []
     \<and> initialized (initialize now s)
     \<and> (True \<notin> set (take 2 (faults s)) \<longrightarrow> productCache (initialize now s) = None)
     \<and> (True \<notin> set (take 2 (faults s)) \<longrightarrow>
          cacheMetadata (initialize now s) =
            (if True \<in> set (take 4 (faults s)) then None
             else Some \<lparr> md_version = ''1.0.0'',
                         lastCleanup = (if now - lastCleanup m > 86400000 then now
                                        else lastCleanup m) \<rparr>))
     \<and> (no_faults s \<longrightarrow>
          cacheMetadata (initialize now s) =
            Some \<lparr> md_version = ''1.0.0'',
                   lastCleanup = (if now - lastCleanup m > 86400000 then now
                                  else lastCleanup m) \<rparr>)"
  using initialize_mismatch [OF assms, of now] initialize_no_faults [OF assms(1), of now] assms(3)
    initialize_mismatch_meta [OF assms, of now]
  by simp

theorem initialize_version_mismatch_witness:
  "cache (initialize 1000 stale_state) = []
   \<and> productCache (initialize 1000 stale_state) = None
   \<and> cacheMetadata (initialize 1000 stale_state)
       = Some \<lparr> md_version = ''1.0.0'', lastCleanup = 900 \<rparr>
   \<and> cache (initialize 1000 (stale_state\<lparr>faults := [False, False, True]\<rparr>)) = []
   \<and> productCache (initialize 1000 (stale_state\<lparr>faults := [False, False, True]\<rparr>)) = None
   \<and> cacheMetadata (initialize 1000 (stale_state\<lparr>faults := [False, False, True]\<rparr>)) = None"
  using initialize_version_mismatch [of stale_state "\<lparr> md_version = ''0.9.0'', lastCleanup = 900 \<rparr>" 1000]
    initialize_version_mismatch [of "stale_state\<lparr>faults := [False, False, True]\<rparr>"
      "\<lparr> md_version = ''0.9.0'', lastCleanup = 900 \<rparr>" 1000]
  by (simp add: stale_state_def no_faults_def)


text \<open>
  Claim C6, as stated, fails: when the read of the persisted entries rejects, the
  \<^verbatim>\<open>catch\<close> block marks the cache initialized and the metadata is never written.
\<close>

theorem initialize_error_skips_persist:
  "initialized (initialize 1000 failing_state)
   \<and> cacheMetadata (initialize 1000 failing_state) = None
   \<and> faults (initialize 1000 failing_state) = []"
  by (simp add: failing_state_def initialize_def initialize_try_def bind_io_def return_io_def
      storage_get_cacheMetadata_def storage_get_productCache_def storage_call_def version_val)

text \<open>
  Claim C6, amended. Every run of \<^verbatim>\<open>initialize()\<close> ends with the cache marked
  initialized. A run on a cache that is not yet initialized and in which no storage call
  fails ends with the refreshed metadata persisted: the running version, and
  \<^verbatim>\<open>lastCleanup\<close> set to now when there was no record or the last cleanup is more than a
  day old. A run in which an error is raised does not write the metadata: the stored
  record is the one from before, or none.
\<close>

theorem initialize_concludes:
  "initialized (initialize now s)
   \<and> (\<not> initialized s \<and> no_faults s \<longrightarrow>
        cacheMetadata (initialize now s) =
          Some \<lparr> md_version = ''1.0.0'',
                 lastCleanup = (case cacheMetadata s of
                                  None \<Rightarrow> now
                                | Some m \<Rightarrow> if now - lastCleanup m > 86400000 then now
                                            else lastCleanup m) \<rparr>)
   \<and> (\<forall>e. \<not> initialized s \<and> fst (initialize_try now s) = Inl e \<longrightarrow>
        cacheMetadata (initialize now s) = cacheMetadata s
        \<or> cacheMetadata (initialize now s) = None)"
proof -
  obtain r s' where r: "initialize_try now s = (r, s')" by (cases "initialize_try now s")
  have "initialized (initialize now s)"
  proof (cases "initialized s")
    case True
    then show ?thesis by (simp add: initialize_def)
  next
    case False
    show ?thesis
    proof (cases r)
      case (Inl e)
      then show ?thesis using False r by (simp add: initialize_def)
    next
      case (Inr x)
      then show ?thesis using False r initialize_try_initialized [of now s x s']
        by (simp add: initialize_def)
    qed
  qed
  moreover have "\<forall>e. \<not> initialized s \<and> fst (initialize_try now s) = Inl e \<longrightarrow>
        cacheMetadata (initialize now s) = cacheMetadata s
        \<or> cacheMetadata (initialize now s) = None"
  proof (intro allI impI)
    fix e assume a: "\<not> initialized s \<and> fst (initialize_try now s) = Inl e"
    then have "initialize_try now s = (Inl e, s')" using r by simp
    from initialize_try_error_meta [OF this] a r
    show "cacheMetadata (initialize now s) = cacheMetadata s
        \<or> cacheMetadata (initialize now s) = None"
      by (auto simp: initialize_def)
  qed
  moreover have "\<not> initialized s \<and> no_faults s \<longrightarrow>
        cacheMetadata (initialize now s) =
          Some \<lparr> md_version = ''1.0.0'',
                 lastCleanup = (case cacheMetadata s of
                                  None \<Rightarrow> now
                                | Some m \<Rightarrow> if now - lastCleanup m > 86400000 then now
                                            else lastCleanup m) \<rparr>"
    using initialize_no_faults [of s now] by blast
  ultimately show ?thesis by (intro conjI)
qed

theorem initialize_concludes_witness:
  "initialized (initialize 1000 (stale_state\<lparr>cacheMetadata := None\<rparr>))
   \<and> cacheMetadata (initialize 1000 (stale_state\<lparr>cacheMetadata := None\<rparr>))
       = Some \<lparr> md_version = ''1.0.0'', lastCleanup = 1000 \<rparr>"
  using initialize_concludes [of 1000 "stale_state\<lparr>cacheMetadata := None\<rparr>"]
  by (simp add: stale_state_def no_faults_def)


subsection \<open>Importing a cache file\<close>

text \<open>
  Claim C7, as stated, fails: the import of \<^verbatim>\<open>popup.js\<close> checks only that a version is
  present. A file of version \<open>0.9.0\<close> is accepted while the running version is \<open>1.0.0\<close>,
  and the persisted entries and metadata are overwritten.
\<close>

theorem popup_import_accepts_other_version:
  "popup_importCache 1000 (Parsed \<lparr> file_version = Some ''0.9.0'', items = Some [] \<rparr>) live_state
     = (None, live_state\<lparr> productCache := Some [],
                cacheMetadata := Some \<lparr> md_version = ''0.9.0'', lastCleanup = 1000 \<rparr> \<rparr>)
   \<and> productCache live_state \<noteq> Some []
   \<and> ''0.9.0'' \<noteq> version CACHE_CONFIG"
  by (simp add: popup_importCache_def live_state_def caught_def bind_io_def storage_call_def
      version_val)

text \<open>
  The import of \<^verbatim>\<open>content.js\<close> checks the version only: a file of the running version
  without \<^verbatim>\<open>items\<close> clears the cache before \<^verbatim>\<open>Object.entries\<close> raises.
\<close>

lemma content_import_missing_items:
  "content_importCache 1000 (Parsed \<lparr> file_version = Some ''1.0.0'', items = None \<rparr>) live_state
     = (Some TypeError, live_state\<lparr> cache := [], productCache := None, cacheMetadata := None \<rparr>)"
  by (simp add: content_importCache_def live_state_def caught_def bind_io_def storage_call_def
      clearCache_def storage_remove_all_def version_val)

text \<open>
  Claim C7, amended. The import of \<^verbatim>\<open>popup.js\<close> rejects an object whose version is missing
  or empty or whose items are missing, with the message \<^verbatim>\<open>Invalid cache file format\<close>; the
  import of \<^verbatim>\<open>content.js\<close> rejects an object whose version is missing or differs from the
  running version, with the message \<^verbatim>\<open>Cache version mismatch\<close>. Both reject a file that
  is not JSON, with the \<^verbatim>\<open>SyntaxError\<close> of the parser, and a file that holds the JSON
  value \<^verbatim>\<open>null\<close>, with the \<^verbatim>\<open>TypeError\<close> raised by reading its version. Each rejection is
  reported by the \<^verbatim>\<open>catch\<close> block with the message of its error and leaves the cache, in
  memory and persisted, exactly as it was.
\<close>

theorem import_rejection_leaves_cache:
  "(file_version d = None \<or> file_version d = Some [] \<or> items d = None \<longrightarrow>
      popup_importCache now (Parsed d) s = (Some (Error ''Invalid cache file format''), s))
   \<and> (file_version d \<noteq> Some ''1.0.0'' \<longrightarrow>
      content_importCache now (Parsed d) s = (Some (Error ''Cache version mismatch''), s))
   \<and> popup_importCache now NotJSON s = (Some SyntaxError, s)
   \<and> content_importCache now NotJSON s = (Some SyntaxError, s)
   \<and> popup_importCache now JsonNull s = (Some TypeError, s)
   \<and> content_importCache now JsonNull s = (Some TypeError, s)"
  by (auto simp: popup_importCache_def content_importCache_def version_val
      split: option.splits)

theorem import_rejection_leaves_cache_witness:
  "popup_importCache 1000 (Parsed \<lparr> file_version = None, items = Some [] \<rparr>) live_state
     = (Some (Error ''Invalid cache file format''), live_state)
   \<and> content_importCache 1000 (Parsed \<lparr> file_version = Some ''0.9.0'', items = Some [] \<rparr>) live_state
     = (Some (Error ''Cache version mismatch''), live_state)
   \<and> popup_importCache 1000 JsonNull live_state = (Some TypeError, live_state)
   \<and> content_importCache 1000 JsonNull live_state = (Some TypeError, live_state)"
  using import_rejection_leaves_cache
     [of "\<lparr> file_version = None, items = Some [] \<rparr>" 1000 live_state]
    import_rejection_leaves_cache
     [of "\<lparr> file_version = Some ''0.9.0'', items = Some [] \<rparr>" 1000 live_state]
  by simp

subsection \<open>Platform selection\<close>

lemma sorted_platforms: "sort_key (\<lambda>a. priority (snd a)) platforms = platforms"
  by (simp add: platforms_def)

lemma map_of_platforms:
  "map_of platforms p = Some c \<longleftrightarrow>
     (p = ''taobao'' \<and> c = \<lparr> baseUrl = ''https://www.jadeship.com/item/taobao/'', priority = 1 \<rparr>)
     \<or> (p = ''weidian'' \<and> c = \<lparr> baseUrl = ''https://www.jadeship.com/item/weidian/'', priority = 2 \<rparr>)"
  by (auto simp: platforms_def)

lemma map_throwing_Inr:
  "\<forall>x \<in> set xs. f x = Inr (g x) \<Longrightarrow> map_throwing f xs = Inr (map g xs)"
  by (induction xs) auto

lemma sort_key_head:
  assumes "xs \<noteq> []"
  shows "\<exists>a rest. sort_key f xs = a # rest \<and> a \<in> set xs \<and> (\<forall>b \<in> set xs. f a \<le> f b)"
proof -
  have ne: "sort_key f xs \<noteq> []" using assms by (metis length_0_conv length_sort)
  then obtain a rest where ar: "sort_key f xs = a # rest" by (cases "sort_key f xs") auto
  have st: "set xs = set (a # rest)" using ar by (metis set_sort)
  have "sorted (map f (a # rest))" using sorted_sort_key [of f xs] ar by simp
  then have "\<forall>b \<in> set (a # rest). f a \<le> f b" by auto
  then show ?thesis using ar st by auto
qed

lemma with_platform_Inr:
  assumes "fst a \<in> {''taobao'', ''weidian''}"
  shows "with_platform a =
    Inr ((if fst a = ''taobao'' then 1 else (2::int)), \<lparr> price = price (snd a), link = link (snd a), platform = Some (fst a),
                          with_priority = Some ((if fst a = ''taobao'' then 1 else (2::int))) \<rparr>)"
  using assms by (auto simp: with_platform_def platforms_def)

lemma select_char:
  assumes keys: "\<forall>a \<in> set prices. fst a \<in> {''taobao'', ''weidian''}"
  shows "\<exists>r. selectPlatformPrice prices = Inr r \<and>
     (if \<exists>a \<in> set prices. available (snd a)
      then \<exists>a \<in> set prices. available (snd a)
             \<and> r = \<lparr> price = price (snd a), link = link (snd a), platform = Some (fst a),
                       with_priority = Some ((if fst a = ''taobao'' then 1 else (2::int))) \<rparr>
             \<and> (\<forall>b \<in> set prices. available (snd b) \<longrightarrow> (if fst a = ''taobao'' then 1 else (2::int)) \<le> (if fst b = ''taobao'' then 1 else (2::int)))
      else r = (case map_of prices ''taobao'' of
                  Some d \<Rightarrow> \<lparr> price = price d, link = link d, platform = None,
                               with_priority = None \<rparr>
                | None \<Rightarrow> unavailable))"
proof -
  let ?g = "\<lambda>a. ((if fst a = ''taobao'' then 1 else (2::int)), \<lparr> price = price (snd a), link = link (snd a),
      platform = Some (fst a), with_priority = Some ((if fst a = ''taobao'' then 1 else (2::int))) \<rparr>)"
  let ?av = "filter (\<lambda>a. available (snd a)) prices"
  have mt: "map_throwing with_platform ?av = Inr (map ?g ?av)"
    by (rule map_throwing_Inr) (use keys with_platform_Inr in auto)
  show ?thesis
  proof (cases "\<exists>a \<in> set prices. available (snd a)")
    case False
    then have "?av = []" by (simp add: filter_empty_conv)
    then show ?thesis using False mt
      by (auto simp: selectPlatformPrice_def sorted_platforms platforms_def split: option.splits)
  next
    case True
    then have ne: "map ?g ?av \<noteq> []" by (simp add: filter_empty_conv)
    from sort_key_head [OF ne, of fst] obtain x rest where
      x: "sort_key fst (map ?g ?av) = x # rest" "x \<in> set (map ?g ?av)"
         "\<forall>b \<in> set (map ?g ?av). fst x \<le> fst b"
      by blast
    from x(2) obtain a where a: "a \<in> set prices" "available (snd a)" "x = ?g a" by auto
    have sel: "selectPlatformPrice prices = Inr (snd x)"
      using mt ne x(1) by (simp add: selectPlatformPrice_def split: prod.splits)
    have least: "\<forall>b \<in> set prices. available (snd b) \<longrightarrow> (if fst a = ''taobao'' then 1 else (2::int)) \<le> (if fst b = ''taobao'' then 1 else (2::int))"
    proof (intro ballI impI)
      fix b assume "b \<in> set prices" "available (snd b)"
      then have "?g b \<in> set (map ?g ?av)" by simp
      with x(3) have "fst x \<le> fst (?g b)" by blast
      then show "(if fst a = ''taobao'' then 1 else (2::int)) \<le> (if fst b = ''taobao'' then 1 else (2::int))" using a(3) by simp
    qed
    have r: "snd x = \<lparr> price = price (snd a), link = link (snd a), platform = Some (fst a),
        with_priority = Some ((if fst a = ''taobao'' then 1 else (2::int))) \<rparr>"
      using a(3) by simp
    have "\<exists>a \<in> set prices. available (snd a)
        \<and> snd x = \<lparr> price = price (snd a), link = link (snd a), platform = Some (fst a),
                       with_priority = Some ((if fst a = ''taobao'' then 1 else (2::int))) \<rparr>
        \<and> (\<forall>b \<in> set prices. available (snd b) \<longrightarrow> (if fst a = ''taobao'' then 1 else (2::int)) \<le> (if fst b = ''taobao'' then 1 else (2::int)))"
      using a(1,2) r least by blast
    then show ?thesis using True sel by simp
  qed
qed

text \<open>
  Claim C4. For a \<open>prices\<close> object whose keys are configured platforms,
  \<^verbatim>\<open>selectPlatformPrice\<close> always returns a result. If some platform has a price other than
  \<^verbatim>\<open>N/A\<close> together with a link, the result is such an entry, extended with its platform
  and priority, and no available platform has a lower priority. Otherwise the result is
  the entry of \<^verbatim>\<open>taobao\<close>, the platform of priority 1, as it is, with its \<^verbatim>\<open>N/A\<close> price.
\<close>

theorem selectPlatformPrice_total:
  assumes "\<forall>a \<in> set prices. fst a \<in> {''taobao'', ''weidian''}"
  shows "\<exists>r. selectPlatformPrice prices = Inr r \<and>
     (if \<exists>a \<in> set prices. available (snd a)
      then \<exists>a \<in> set prices. \<exists>c. available (snd a) \<and> map_of platforms (fst a) = Some c
             \<and> r = \<lparr> price = price (snd a), link = link (snd a), platform = Some (fst a),
                       with_priority = Some (priority c) \<rparr>
             \<and> (\<forall>b \<in> set prices. \<forall>c'. available (snd b) \<and> map_of platforms (fst b) = Some c'
                    \<longrightarrow> priority c \<le> priority c')
      else (\<exists>c. map_of platforms ''taobao'' = Some c \<and> priority c = 1)
           \<and> r = (case map_of prices ''taobao'' of
                  Some d \<Rightarrow> \<lparr> price = price d, link = link d, platform = None,
                               with_priority = None \<rparr>
                | None \<Rightarrow> unavailable))"
proof -
  from select_char [OF assms] obtain r where
    r: "selectPlatformPrice prices = Inr r"
       "if \<exists>a \<in> set prices. available (snd a)
        then \<exists>a \<in> set prices. available (snd a)
             \<and> r = \<lparr> price = price (snd a), link = link (snd a), platform = Some (fst a),
                       with_priority = Some (if fst a = ''taobao'' then 1 else (2::int)) \<rparr>
             \<and> (\<forall>b \<in> set prices. available (snd b) \<longrightarrow>
                   (if fst a = ''taobao'' then 1 else (2::int))
                     \<le> (if fst b = ''taobao'' then 1 else (2::int)))
        else r = (case map_of prices ''taobao'' of
                  Some d \<Rightarrow> \<lparr> price = price d, link = link d, platform = None,
                               with_priority = None \<rparr>
                | None \<Rightarrow> unavailable)"
    by blast
  have cfg: "\<exists>c. map_of platforms (fst a) = Some c
      \<and> priority c = (if fst a = ''taobao'' then 1 else (2::int))"
    if "a \<in> set prices" for a
    using assms that by (auto simp: platforms_def)
  have cfg': "priority c = (if p = ''taobao'' then 1 else (2::int))"
    if "map_of platforms p = Some c" for p c
    using that by (auto simp: map_of_platforms)
  show ?thesis
  proof (cases "\<exists>a \<in> set prices. available (snd a)")
    case False
    then show ?thesis using r by (simp add: platforms_def)
  next
    case True
    with r(2) obtain a where a: "a \<in> set prices" "available (snd a)"
      "r = \<lparr> price = price (snd a), link = link (snd a), platform = Some (fst a),
                       with_priority = Some (if fst a = ''taobao'' then 1 else (2::int)) \<rparr>"
      "\<forall>b \<in> set prices. available (snd b) \<longrightarrow>
                   (if fst a = ''taobao'' then 1 else (2::int))
                     \<le> (if fst b = ''taobao'' then 1 else (2::int))"
      by auto
    from cfg [OF a(1)] obtain c where c: "map_of platforms (fst a) = Some c"
      "priority c = (if fst a = ''taobao'' then 1 else (2::int))" by blast
    have "\<forall>b \<in> set prices. \<forall>c'. available (snd b) \<and> map_of platforms (fst b) = Some c'
                    \<longrightarrow> priority c \<le> priority c'"
    proof (intro ballI allI impI)
      fix b c' assume b: "b \<in> set prices" "available (snd b) \<and> map_of platforms (fst b) = Some c'"
      then have "priority c' = (if fst b = ''taobao'' then 1 else (2::int))"
        using cfg' [of "fst b" c'] by simp
      moreover have "(if fst a = ''taobao'' then 1 else (2::int))
                     \<le> (if fst b = ''taobao'' then 1 else (2::int))"
        using a(4) b by blast
      ultimately show "priority c \<le> priority c'" using c(2) by simp
    qed
    moreover have "r = \<lparr> price = price (snd a), link = link (snd a), platform = Some (fst a),
                       with_priority = Some (priority c) \<rparr>"
      using a(3) c(2) by simp
    ultimately have "\<exists>a \<in> set prices. \<exists>c. available (snd a) \<and> map_of platforms (fst a) = Some c
             \<and> r = \<lparr> price = price (snd a), link = link (snd a), platform = Some (fst a),
                       with_priority = Some (priority c) \<rparr>
             \<and> (\<forall>b \<in> set prices. \<forall>c'. available (snd b) \<and> map_of platforms (fst b) = Some c'
                    \<longrightarrow> priority c \<le> priority c')"
      using a(1,2) c(1) by blast
    then show ?thesis using True r(1) by simp
  qed
qed

theorem selectPlatformPrice_total_witness:
  "selectPlatformPrice
     [(''taobao'', \<lparr> price = ''N/A'', link = Some ''item.taobao.com/item.htm?id=1'' \<rparr>),
      (''weidian'', \<lparr> price = ''10'', link = Some ''weidian.com/item.html?itemID=2'' \<rparr>)]
   = Inr \<lparr> price = ''10'', link = Some ''weidian.com/item.html?itemID=2'',
           platform = Some ''weidian'', with_priority = Some 2 \<rparr>
   \<and> selectPlatformPrice
     [(''taobao'', \<lparr> price = ''N/A'', link = Some ''item.taobao.com/item.htm?id=1'' \<rparr>),
      (''weidian'', \<lparr> price = ''10'', link = None \<rparr>)]
   = Inr \<lparr> price = ''N/A'', link = Some ''item.taobao.com/item.htm?id=1'',
           platform = None, with_priority = None \<rparr>"
proof -
  let ?prices = "[(''taobao'', \<lparr> price = ''N/A'', link = Some ''item.taobao.com/item.htm?id=1'' \<rparr>),
      (''weidian'', \<lparr> price = ''10'', link = Some ''weidian.com/item.html?itemID=2'' \<rparr>)]"
  let ?none = "[(''taobao'', \<lparr> price = ''N/A'', link = Some ''item.taobao.com/item.htm?id=1'' \<rparr>),
      (''weidian'', \<lparr> price = ''10'', link = None \<rparr>)]"
  have keys: "\<forall>a \<in> set ?prices. fst a \<in> {''taobao'', ''weidian''}" by simp
  have av: "\<exists>a \<in> set ?prices. available (snd a)" by (simp add: available_def)
  from selectPlatformPrice_total [OF keys] av obtain r where
    r: "selectPlatformPrice ?prices = Inr r"
       "\<exists>a \<in> set ?prices. \<exists>c. available (snd a) \<and> map_of platforms (fst a) = Some c
          \<and> r = \<lparr> price = price (snd a), link = link (snd a), platform = Some (fst a),
                    with_priority = Some (priority c) \<rparr>"
    by (simp only: if_True) blast
  from r(2) have "r = \<lparr> price = ''10'', link = Some ''weidian.com/item.html?itemID=2'',
           platform = Some ''weidian'', with_priority = Some 2 \<rparr>"
    by (auto simp: available_def map_of_platforms)
  with r(1) have first: "selectPlatformPrice ?prices
      = Inr \<lparr> price = ''10'', link = Some ''weidian.com/item.html?itemID=2'',
           platform = Some ''weidian'', with_priority = Some 2 \<rparr>"
    by simp
  have keys': "\<forall>a \<in> set ?none. fst a \<in> {''taobao'', ''weidian''}" by simp
  have nav: "\<not> (\<exists>a \<in> set ?none. available (snd a))" by (simp add: available_def)
  from selectPlatformPrice_total [OF keys'] nav obtain r' where
    r': "selectPlatformPrice ?none = Inr r'"
        "r' = (case map_of ?none ''taobao'' of
                 Some d \<Rightarrow> \<lparr> price = price d, link = link d, platform = None,
                              with_priority = None \<rparr>
               | None \<Rightarrow> unavailable)"
    by (simp only: if_False) blast
  from r' have second: "selectPlatformPrice ?none
      = Inr \<lparr> price = ''N/A'', link = Some ''item.taobao.com/item.htm?id=1'',
           platform = None, with_priority = None \<rparr>"
    by simp
  from first second show ?thesis by (rule conjI)
qed

subsection \<open>Fetching the product details\<close>

lemma map_entry_keys: "map fst (AList.map_entry k f xs) = map fst xs"
  by (induction xs) auto

lemma map_entry_inv:
  assumes "\<forall>a \<in> set xs. P (snd a)" and "\<And>v. P v \<Longrightarrow> P (f v)"
  shows "\<forall>a \<in> set (AList.map_entry k f xs). P (snd a)"
  using assms by (induction xs) auto

lemma fetchPrice_keys:
  "fetchPriceForPlatform pf l ex ans prices = Some prices' \<Longrightarrow> map fst prices' = map fst prices"
  by (auto simp: fetchPriceForPlatform_def map_entry_keys Let_def
      split: option.splits message_outcome.splits if_splits)

lemma fetchPrice_price:
  assumes "fetchPriceForPlatform pf l ex ans prices = Some prices'"
    and "\<forall>a \<in> set prices. price (snd a) \<noteq> []"
  shows "\<forall>a \<in> set prices'. price (snd a) \<noteq> []"
proof -
  have 1: "\<forall>a \<in> set (AList.map_entry pf (\<lambda>d. d\<lparr>link := Some l\<rparr>) prices). price (snd a) \<noteq> []"
    by (rule map_entry_inv [OF assms(2)]) simp
  have 2: "\<forall>a \<in> set (AList.map_entry pf (\<lambda>d. d\<lparr>price := t\<rparr>)
      (AList.map_entry pf (\<lambda>d. d\<lparr>link := Some l\<rparr>) prices)). price (snd a) \<noteq> []"
    if "t \<noteq> []" for t
    by (rule map_entry_inv [OF 1]) (use that in simp)
  show ?thesis
    using assms 1 2 [of "''N/A''"] 2
    by (auto simp: fetchPriceForPlatform_def Let_def
        split: option.splits message_outcome.splits if_splits)
qed

lemma fetchPrice_settles:
  "ans \<noteq> MessagePending \<Longrightarrow> fetchPriceForPlatform pf l ex ans prices \<noteq> None"
  by (simp add: fetchPriceForPlatform_def Let_def split: option.splits message_outcome.splits)

lemma fetchPrice_pending:
  "ex (''https://'' @ l) = Some pid \<Longrightarrow> pid \<noteq> [] \<Longrightarrow>
     fetchPriceForPlatform pf l ex MessagePending prices = None"
  by (simp add: fetchPriceForPlatform_def)

lemma select_two:
  assumes keys: "map fst prices = [''taobao'', ''weidian'']"
    and ne: "\<forall>a \<in> set prices. price (snd a) \<noteq> []"
  shows "\<exists>r. selectPlatformPrice prices = Inr r \<and> price r \<noteq> []"
proof -
  have k: "\<forall>a \<in> set prices. fst a \<in> {''taobao'', ''weidian''}"
  proof
    fix a assume "a \<in> set prices"
    then have "fst a \<in> fst ` set prices" by (rule imageI)
    moreover have "fst ` set prices = set [''taobao'', ''weidian'']"
      using keys by (metis set_map)
    ultimately show "fst a \<in> {''taobao'', ''weidian''}" by simp
  qed
  from select_char [OF k] obtain r where
    r: "selectPlatformPrice prices = Inr r"
       "if \<exists>a \<in> set prices. available (snd a)
        then \<exists>a \<in> set prices. available (snd a)
             \<and> r = \<lparr> price = price (snd a), link = link (snd a), platform = Some (fst a),
                       with_priority = Some (if fst a = ''taobao'' then 1 else (2::int)) \<rparr>
             \<and> (\<forall>b \<in> set prices. available (snd b) \<longrightarrow>
                   (if fst a = ''taobao'' then 1 else (2::int))
                     \<le> (if fst b = ''taobao'' then 1 else (2::int)))
        else r = (case map_of prices ''taobao'' of
                  Some d \<Rightarrow> \<lparr> price = price d, link = link d, platform = None,
                               with_priority = None \<rparr>
                | None \<Rightarrow> unavailable)"
    by blast
  have "price r \<noteq> []"
  proof (cases "\<exists>a \<in> set prices. available (snd a)")
    case True
    with r(2) obtain a where "a \<in> set prices" "price r = price (snd a)" by auto
    with ne show ?thesis by metis
  next
    case False
    show ?thesis
    proof (cases "map_of prices ''taobao''")
      case None
      with False r(2) show ?thesis by (simp add: unavailable_def)
    next
      case (Some d)
      then have "(''taobao'', d) \<in> set prices" by (rule map_of_SomeD)
      with ne have "price d \<noteq> []" by fastforce
      with False r(2) Some show ?thesis by simp
    qed
  qed
  with r(1) show ?thesis by blast
qed

lemma try_Html:
  assumes "race w = Html pg"
  shows "(fetchProductDetails_try w = Pending
          \<or> (\<exists>r. fetchProductDetails_try w = Resolved r \<and> price r \<noteq> []))
     \<and> (taobaoPrice w \<noteq> MessagePending \<and> weidianPrice w \<noteq> MessagePending
          \<longrightarrow> fetchProductDetails_try w \<noteq> Pending)"
proof -
  let ?p0 = "[(''taobao'', \<lparr> price = ''N/A'', link = None \<rparr>),
             (''weidian'', \<lparr> price = ''N/A'', link = None \<rparr>)]"
  let ?o1 = "case taobaoMatch pg of None \<Rightarrow> Some ?p0
     | Some m \<Rightarrow> fetchPriceForPlatform ''taobao'' m (extractTaobaoId w) (taobaoPrice w) ?p0"
  have n0: "\<forall>a \<in> set ?p0. price (snd a) \<noteq> []" by simp
  show ?thesis
  proof (cases ?o1)
    case None
    then have "fetchProductDetails_try w = Pending"
      using assms by (simp add: fetchProductDetails_try_def Let_def)
    moreover have "taobaoPrice w = MessagePending"
    proof (rule ccontr)
      assume "taobaoPrice w \<noteq> MessagePending"
      with None show False
        by (auto simp: fetchPrice_settles split: option.splits)
    qed
    ultimately show ?thesis by simp
  next
    case (Some p1)
    have k1: "map fst p1 = [''taobao'', ''weidian'']"
      using Some fetchPrice_keys [of "''taobao''" _ "extractTaobaoId w" "taobaoPrice w" ?p0 p1]
      by (auto split: option.splits)
    have n1: "\<forall>a \<in> set p1. price (snd a) \<noteq> []"
      using Some n0
        fetchPrice_price [of "''taobao''" _ "extractTaobaoId w" "taobaoPrice w" ?p0 p1]
      by (auto split: option.splits)
    let ?o2 = "case weidianMatch pg of None \<Rightarrow> Some p1
       | Some m \<Rightarrow> fetchPriceForPlatform ''weidian'' m (extractWeidianId w) (weidianPrice w) p1"
    show ?thesis
    proof (cases ?o2)
      case None
      then have "fetchProductDetails_try w = Pending"
        using assms Some by (simp add: fetchProductDetails_try_def Let_def)
      moreover have "weidianPrice w = MessagePending"
      proof (rule ccontr)
        assume "weidianPrice w \<noteq> MessagePending"
        with None show False
          by (auto simp: fetchPrice_settles split: option.splits)
      qed
      ultimately show ?thesis by simp
    next
      case (Some p2)
      have k2: "map fst p2 = [''taobao'', ''weidian'']"
        using Some k1
          fetchPrice_keys [of "''weidian''" _ "extractWeidianId w" "weidianPrice w" p1 p2]
        by (auto split: option.splits)
      have n2: "\<forall>a \<in> set p2. price (snd a) \<noteq> []"
        using Some n1
          fetchPrice_price [of "''weidian''" _ "extractWeidianId w" "weidianPrice w" p1 p2]
        by (auto split: option.splits)
      from select_two [OF k2 n2] obtain r where
        r: "selectPlatformPrice p2 = Inr r" "price r \<noteq> []" by blast
      have "fetchProductDetails_try w = Resolved r"
        using assms \<open>?o1 = Some p1\<close> Some r(1)
        by (simp add: fetchProductDetails_try_def Let_def)
      with r(2) show ?thesis by simp
    qed
  qed
qed

text \<open>
  Claim C9, as stated, fails: the timer guards \<^verbatim>\<open>fetch(productLink)\<close> only. When the
  response arrives and its body never does, or when a \<^verbatim>\<open>fetchPrice\<close> message is never
  answered, the promise of \<^verbatim>\<open>fetchProductDetails\<close> stays pending: it resolves to no object.
\<close>

theorem fetchProductDetails_can_stay_pending:
  "fetchProductDetails stalled_body = Pending
   \<and> fetchProductDetails stalled_message = Pending"
  by (simp add: fetchProductDetails_def fetchProductDetails_try_def fetchPriceForPlatform_def
      stalled_body_def stalled_message_def)

text \<open>
  Claim C9, amended. \<^verbatim>\<open>fetchProductDetails\<close> never rejects. When the timer wins the race
  against the fetch, the fetch rejects or the body cannot be read or parsed, and on any
  other error raised in the \<^verbatim>\<open>try\<close> block, it resolves to \<^verbatim>\<open>{price: 'N/A', link: null}\<close>.
  Whenever it resolves, the value is an object with a price, which is never empty, and a
  link. It resolves whenever the body read and the two price messages settle; it stays
  pending while the body read does, or while a price message that was sent does.
\<close>

theorem fetchProductDetails_resolves:
  "(\<forall>e. fetchProductDetails w \<noteq> Rejected e)
   \<and> (race w \<in> {Timeout, FetchRejected, BodyFailed} \<longrightarrow> fetchProductDetails w = Resolved unavailable)
   \<and> (\<forall>e. fetchProductDetails_try w = Rejected e \<longrightarrow> fetchProductDetails w = Resolved unavailable)
   \<and> (\<forall>r. fetchProductDetails w = Resolved r \<longrightarrow> price r \<noteq> [])
   \<and> (race w \<noteq> BodyPending \<and> taobaoPrice w \<noteq> MessagePending \<and> weidianPrice w \<noteq> MessagePending
        \<longrightarrow> (\<exists>r. fetchProductDetails w = Resolved r))
   \<and> (race w = BodyPending \<longrightarrow> fetchProductDetails w = Pending)
   \<and> (\<forall>pg m pid. race w = Html pg \<and> taobaoMatch pg = Some m
          \<and> extractTaobaoId w (''https://'' @ m) = Some pid \<and> pid \<noteq> []
          \<and> taobaoPrice w = MessagePending
        \<longrightarrow> fetchProductDetails w = Pending)
   \<and> (\<forall>pg m pid. race w = Html pg \<and> weidianMatch pg = Some m
          \<and> extractWeidianId w (''https://'' @ m) = Some pid \<and> pid \<noteq> []
          \<and> weidianPrice w = MessagePending
        \<longrightarrow> fetchProductDetails w = Pending)"
proof -
  have cases: "fetchProductDetails w = Pending
      \<or> (\<exists>r. fetchProductDetails w = Resolved r \<and> price r \<noteq> [])"
  proof (cases "race w")
    case (Html pg)
    from try_Html [OF this] show ?thesis by (auto simp: fetchProductDetails_def)
  qed (simp_all add: fetchProductDetails_def fetchProductDetails_try_def unavailable_def)
  have a: "\<forall>e. fetchProductDetails w \<noteq> Rejected e" using cases by auto
  have b: "race w \<in> {Timeout, FetchRejected, BodyFailed} \<longrightarrow> fetchProductDetails w = Resolved unavailable"
    by (auto simp: fetchProductDetails_def fetchProductDetails_try_def)
  have c: "\<forall>e. fetchProductDetails_try w = Rejected e \<longrightarrow> fetchProductDetails w = Resolved unavailable"
    by (simp add: fetchProductDetails_def)
  have d: "\<forall>r. fetchProductDetails w = Resolved r \<longrightarrow> price r \<noteq> []" using cases by auto
  have e: "race w \<noteq> BodyPending \<and> taobaoPrice w \<noteq> MessagePending \<and> weidianPrice w \<noteq> MessagePending
        \<longrightarrow> (\<exists>r. fetchProductDetails w = Resolved r)"
  proof (cases "race w")
    case (Html pg)
    from try_Html [OF this] cases show ?thesis by (auto simp: fetchProductDetails_def)
  qed (simp_all add: fetchProductDetails_def fetchProductDetails_try_def)
  have f: "race w = BodyPending \<longrightarrow> fetchProductDetails w = Pending"
    by (simp add: fetchProductDetails_def fetchProductDetails_try_def)
  have g: "\<forall>pg m pid. race w = Html pg \<and> taobaoMatch pg = Some m
          \<and> extractTaobaoId w (''https://'' @ m) = Some pid \<and> pid \<noteq> []
          \<and> taobaoPrice w = MessagePending
        \<longrightarrow> fetchProductDetails w = Pending"
    by (simp add: fetchProductDetails_def fetchProductDetails_try_def fetchPrice_pending)
  have h: "\<forall>pg m pid. race w = Html pg \<and> weidianMatch pg = Some m
          \<and> extractWeidianId w (''https://'' @ m) = Some pid \<and> pid \<noteq> []
          \<and> weidianPrice w = MessagePending
        \<longrightarrow> fetchProductDetails w = Pending"
  proof (intro allI impI)
    fix pg m pid
    assume a: "race w = Html pg \<and> weidianMatch pg = Some m
          \<and> extractWeidianId w (''https://'' @ m) = Some pid \<and> pid \<noteq> []
          \<and> weidianPrice w = MessagePending"
    have p: "fetchPriceForPlatform ''weidian'' m (extractWeidianId w) MessagePending prices
        = None" for prices
      using a fetchPrice_pending [of "extractWeidianId w" m pid "''weidian''" prices] by simp
    show "fetchProductDetails w = Pending"
      using a by (simp add: fetchProductDetails_def fetchProductDetails_try_def Let_def p
          split: option.splits)
  qed
  from a b c d e f g h show ?thesis by (intro conjI)
qed

theorem fetchProductDetails_resolves_witness:
  "fetchProductDetails timed_out = Resolved unavailable
   \<and> (\<exists>r. fetchProductDetails (stalled_message\<lparr>taobaoPrice := MessageRejected\<rparr>) = Resolved r
          \<and> price r \<noteq> [])"
proof -
  note t = fetchProductDetails_resolves [of timed_out]
  note m = fetchProductDetails_resolves [of "stalled_message\<lparr>taobaoPrice := MessageRejected\<rparr>"]
  have "fetchProductDetails timed_out = Resolved unavailable"
    using t by (simp add: timed_out_def)
  moreover have "\<exists>r. fetchProductDetails (stalled_message\<lparr>taobaoPrice := MessageRejected\<rparr>) = Resolved r"
    using m by (simp add: stalled_message_def)
  ultimately show ?thesis using m by blast
qed

subsection \<open>Agent fee\<close>

lemma floor_rat_numeral [simp]:
  "\<lfloor>(numeral a / numeral b :: rat)\<rfloor> = numeral a div numeral b"
  using floor_divide_of_int_eq [of "numeral a" "numeral b", where ?'a = rat] by simp

lemmas round64_eval = round64_def floor_log2_def pow2_def round_half_even_def
  log2_up.simps log2_down.simps Let_def

lemma literal_10238: "literal (10238 / 10000) = Fin (2305392649250957 / 2251799813685248)"
  by (simp add: literal_def round64_eval)

lemma literal_102: "literal (102 / 100) = Fin (2296835809958953 / 2251799813685248)"
  by (simp add: literal_def round64_eval)

lemma literal_103: "literal (103 / 100) = Fin (4638707616191611 / 4503599627370496)"
  by (simp add: literal_def round64_eval)

lemma literal_104: "literal (104 / 100) = Fin (1170935903116329 / 1125899906842624)"
  by (simp add: literal_def round64_eval)

lemma literal_10238_100: "literal (10238 / 100) = Fin (900544003613655 / 8796093022208)"
  by (simp add: literal_def round64_eval)

lemma fee_superbuy: "times_num (Fin 100) (Fin (2305392649250957 / 2251799813685248)) = Fin (7204352028909241 / 70368744177664)"
  by (simp add: times_num_def round64_eval)

lemma fee_cssbuy: "times_num (Fin 100) (Fin (2296835809958953 / 2251799813685248)) = Fin 102"
  by (simp add: times_num_def round64_eval)

lemma fee_default: "times_num (Fin 100) (Fin (4638707616191611 / 4503599627370496)) = Fin 103"
  by (simp add: times_num_def round64_eval)

lemma fee_allchinabuy: "times_num (Fin 100) (Fin (1170935903116329 / 1125899906842624)) = Fin 104"
  by (simp add: times_num_def round64_eval)

lemma fee_100:
  "calculateAgentFee (Fin 100) a =
     (if toLowerCase a = ''superbuy'' then Fin (7204352028909241 / 70368744177664)
      else if toLowerCase a = ''cssbuy'' then Fin 102
      else if toLowerCase a = ''allchinabuy'' then Fin 104
      else Fin 103)"
  unfolding calculateAgentFee_def Let_def literal_10238 literal_102 literal_103 literal_104
    fee_superbuy fee_cssbuy fee_default fee_allchinabuy
  by simp

text \<open>
  Claim C5. For the fee of 100 the claim and the example of the docstring of
  \<^verbatim>\<open>calculateAgentFee\<close> give 102.38 for \<^verbatim>\<open>superbuy\<close>, 102 for \<^verbatim>\<open>cssbuy\<close> and 103 for an
  unrecognized agent. The code returns 102 and 103 exactly, but for \<^verbatim>\<open>superbuy\<close> it
  returns the product of the doubles \<^verbatim>\<open>100\<close> and \<^verbatim>\<open>1.0238\<close>, which is
  \<open>7204352028909241 / 2\<^sup>4\<^sup>6\<close>, printed \<^verbatim>\<open>102.38000000000001\<close>, and not the double \<^verbatim>\<open>102.38\<close>,
  which is \<open>7204352028909240 / 2\<^sup>4\<^sup>6\<close>.
\<close>

theorem calculateAgentFee_superbuy_100:
  "calculateAgentFee (literal 100) ''superbuy'' = Fin (7204352028909241 / 70368744177664)
   \<and> literal (10238 / 100) = Fin (7204352028909240 / 70368744177664)
   \<and> calculateAgentFee (literal 100) ''superbuy'' \<noteq> literal (10238 / 100)
   \<and> calculateAgentFee (literal 100) ''cssbuy'' = literal 102
   \<and> calculateAgentFee (literal 100) ''unknown-agent'' = literal 103"
proof -
  have l: "literal 100 = Fin 100" "literal 102 = Fin 102" "literal 103 = Fin 103"
    by (simp_all add: literal_def round64_eval)
  have low: "toLowerCase ''superbuy'' = ''superbuy''" "toLowerCase ''cssbuy'' = ''cssbuy''"
    "toLowerCase ''unknown-agent'' = ''unknown-agent''"
    by (simp_all add: toLowerCase_def lower_char_def)
  show ?thesis unfolding l fee_100 low literal_10238_100 by simp
qed

subsection \<open>Currency conversion\<close>

text \<open>
  Claim C10. The result of \<^verbatim>\<open>convertCurrency\<close> does not depend on the source currency:
  it is the amount itself when no table is loaded or the table has no rate for the
  lower-case target code, and otherwise the amount times that rate, rounded to two
  decimals.
\<close>

theorem convertCurrency_ignores_source:
  "convertCurrency rates amount f1 t = convertCurrency rates amount f2 t
   \<and> (rates = None \<longrightarrow> convertCurrency rates amount f1 t = amount)
   \<and> (\<forall>table. rates = Some table \<and> table (toLowerCase t) = None
         \<longrightarrow> convertCurrency rates amount f1 t = amount)
   \<and> (\<forall>table rate. rates = Some table \<and> table (toLowerCase t) = Some rate
           \<and> rate \<noteq> NaN \<and> rate \<noteq> Fin 0
         \<longrightarrow> convertCurrency rates amount f1 t = Number_toFixed2 (times_num amount rate))"
  by (simp add: convertCurrency_def)

lemma usd_rate: "literal (1378 / 10000) = Fin (4964768229213235 / 36028797018963968)"
  by (simp add: literal_def round64_eval)

lemma usd_product:
  "times_num (Fin 100) (Fin (4964768229213235 / 36028797018963968))
     = Fin (484840647384105 / 35184372088832)"
  by (simp add: times_num_def round64_eval)

lemma usd_fixed:
  "Number_toFixed2 (Fin (484840647384105 / 35184372088832))
     = Fin (7757450358145679 / 562949953421312)"
  by (simp add: Number_toFixed2_def round64_eval)

theorem convertCurrency_ignores_source_witness:
  "convertCurrency (Some [''usd'' \<mapsto> Fin (4964768229213235 / 36028797018963968)])
      (Fin 100) ''cny'' ''USD'' = Fin (7757450358145679 / 562949953421312)
   \<and> convertCurrency (Some [''usd'' \<mapsto> Fin (4964768229213235 / 36028797018963968)])
      (Fin 100) ''eur'' ''USD'' = Fin (7757450358145679 / 562949953421312)
   \<and> convertCurrency None (Fin 100) ''cny'' ''USD'' = Fin 100
   \<and> convertCurrency (Some [''usd'' \<mapsto> Fin (4964768229213235 / 36028797018963968)])
      (Fin 100) ''cny'' ''xyz'' = Fin 100"
proof -
  let ?rates = "Some [''usd'' \<mapsto> Fin (4964768229213235 / 36028797018963968)]"
  have low: "toLowerCase ''USD'' = ''usd''" "toLowerCase ''xyz'' = ''xyz''"
    by (simp_all add: toLowerCase_def lower_char_def char_of_eq_iff)
  note same = convertCurrency_ignores_source [THEN conjunct1]
  note no_table = convertCurrency_ignores_source [THEN conjunct2, THEN conjunct1, rule_format]
  note no_rate = convertCurrency_ignores_source
    [THEN conjunct2, THEN conjunct2, THEN conjunct1, rule_format]
  note by_rate = convertCurrency_ignores_source
    [THEN conjunct2, THEN conjunct2, THEN conjunct2, rule_format]
  have "convertCurrency ?rates (Fin 100) ''eur'' ''USD''
       = Number_toFixed2 (times_num (Fin 100) (Fin (4964768229213235 / 36028797018963968)))"
    by (rule by_rate [where table = "[''usd'' \<mapsto> Fin (4964768229213235 / 36028797018963968)]"])
      (simp add: low)
  moreover have "convertCurrency ?rates (Fin 100) ''cny'' ''USD''
       = convertCurrency ?rates (Fin 100) ''eur'' ''USD''"
    by (rule same)
  moreover have "convertCurrency None (Fin 100) ''cny'' ''USD'' = Fin 100"
    by (rule no_table) simp
  moreover have "convertCurrency ?rates (Fin 100) ''cny'' ''xyz'' = Fin 100"
    by (rule no_rate [where table = "[''usd'' \<mapsto> Fin (4964768229213235 / 36028797018963968)]"])
      (simp add: low)
  ultimately show ?thesis unfolding usd_product usd_fixed by simp
qed

end
